theory Spec2Isabelle
  imports Main "HOL-Library.Word"
begin

unbundle bit_operations_syntax

section \<open>Router: the routing table and the forwarding decision (router.cc)\<close>

text \<open>
  An IPv4 address is used by the router and by the interface only through its numeric
  form (\<open>Address::ipv4_numeric\<close>, \<open>Address::from_ipv4_numeric\<close>), so it is a
  \<open>uint32_t\<close>. \<open>prefix_length\<close> is the \<open>uint8_t\<close> of \<open>add_route\<close>. The fields of
  \<open>RoutingTableElement\<close> are the source's \<open>route_prefix_\<close>, \<open>prefix_length_\<close>,
  \<open>next_hop_\<close> and \<open>interface_num_\<close>, written without the trailing underscore (a
  name cannot end in one here). \<open>interface_num\<close> is a \<open>size_t\<close> used only as an index.
\<close>

type_synonym ipv4 = "32 word"

record RoutingTableElement =
  route_prefix :: "32 word"
  prefix_length :: "8 word"
  next_hop :: "ipv4 option"
  interface_num :: nat

text \<open>
  \<open>Router::add_route\<close> (router.cc, lines 14 to 28): builds the element and does
  \<open>routing_table_.push_back\<close>. There is no check and no early return in it.
\<close>

definition add_route ::
  "32 word \<Rightarrow> 8 word \<Rightarrow> ipv4 option \<Rightarrow> nat \<Rightarrow> RoutingTableElement list \<Rightarrow> RoutingTableElement list"
where
  "add_route route_prefix' prefix_length' next_hop' interface_num' routing_table =
     routing_table @
       [\<lparr>route_prefix = route_prefix', prefix_length = prefix_length',
         next_hop = next_hop', interface_num = interface_num'\<rparr>]"

text \<open>
  The mask of lines 43 to 46: \<open>uint32_t bitmask = 0\<close>, replaced when
  \<open>0 < prefix_length \<and> prefix_length \<le> 32\<close> by
  \<open>numeric_limits<int>::min() >> (prefix_length - 1)\<close>: the 32-bit value
  \<open>0x80000000\<close> shifted right arithmetically (the sign bit is copied in), then stored
  in the unsigned 32-bit variable.
\<close>

definition bitmask :: "8 word \<Rightarrow> 32 word" where
  "bitmask len =
     (if 0 < len \<and> len \<le> 32
      then signed_drop_bit (unat len - 1) (0x80000000 :: 32 word)
      else 0)"

text \<open>The first conjunct of the test of line 50: \<open>(bitmask & dest) == route_prefix\<close>.\<close>

definition route_matches :: "32 word \<Rightarrow> RoutingTableElement \<Rightarrow> bool" where
  "route_matches dest r = (bitmask (prefix_length r) AND dest = route_prefix r)"

text \<open>
  The loop of lines 41 to 54. Its state is \<open>target_index\<close> and
  \<open>longest_prefix_len\<close>, both \<open>int\<close> and both starting at \<open>-1\<close>; \<open>i\<close> is the
  index of the element being looked at. The comparison of line 50 is done on \<open>int\<close>
  (the \<open>uint8_t\<close> is promoted), hence \<open>uint\<close>.
\<close>

fun best_route_loop ::
  "32 word \<Rightarrow> RoutingTableElement list \<Rightarrow> int \<Rightarrow> int \<Rightarrow> int \<Rightarrow> int"
where
  "best_route_loop dest [] i target_index longest_prefix_len = target_index"
| "best_route_loop dest (r # rs) i target_index longest_prefix_len =
     (if route_matches dest r \<and> longest_prefix_len \<le> uint (prefix_length r)
      then best_route_loop dest rs (i + 1) i (uint (prefix_length r))
      else best_route_loop dest rs (i + 1) target_index longest_prefix_len)"

text \<open>
  The route the loop selects: \<open>None\<close> is \<open>target_index == -1\<close> after the loop
  (line 57), \<open>Some k\<close> the index it holds otherwise.
\<close>

definition lookup :: "RoutingTableElement list \<Rightarrow> 32 word \<Rightarrow> nat option" where
  "lookup routing_table dest =
     (let target_index = best_route_loop dest routing_table 0 (- 1) (- 1)
      in if target_index = - 1 then None else Some (nat target_index))"

text \<open>
  The datagram, as far as the router reads and writes it: \<open>header.ttl\<close> (a
  \<open>uint8_t\<close>), \<open>header.dst\<close>, \<open>header.cksum\<close>; everything else is \<open>dgram_rest\<close>.
\<close>

record 'a InternetDatagram =
  header_ttl :: "8 word"
  header_dst :: "32 word"
  header_cksum :: "16 word"
  dgram_rest :: 'a

text \<open>
  What \<open>route_single_dgram\<close> does with the datagram besides changing it in place:
  it returns without a call (\<open>Dropped\<close>), or it calls
  \<open>interfaces_[target_interface].send_datagram(dgram, hop)\<close> (\<open>Handed\<close>, with the
  index and the next hop of that call; the source does not check the index).
\<close>

datatype forward_outcome = Dropped | Handed nat ipv4

text \<open>
  \<open>Router::route_single_dgram\<close> (lines 31 to 77). \<open>compute_checksum\<close> is the
  header's method of that name, declared outside these sources: it is a parameter. The
  first component of the result is the datagram as the function leaves it (it is passed
  by reference), the second what was done with it.
\<close>

definition route_single_dgram ::
  "('a InternetDatagram \<Rightarrow> 'a InternetDatagram) \<Rightarrow> RoutingTableElement list \<Rightarrow>
   'a InternetDatagram \<Rightarrow> 'a InternetDatagram \<times> forward_outcome"
where
  "route_single_dgram compute_checksum routing_table dgram =
     (if header_ttl dgram \<le> 0 then (dgram, Dropped)
      else
        let dest = header_dst dgram in
        case lookup routing_table dest of
          None \<Rightarrow> (dgram, Dropped)
        | Some target_index \<Rightarrow>
            let dgram1 = dgram\<lparr>header_ttl := header_ttl dgram - 1\<rparr> in
            if header_ttl dgram1 \<le> 0 then (dgram1, Dropped)
            else
              let dgram2 = compute_checksum dgram1;
                  target_interface = interface_num (routing_table ! target_index)
              in (case next_hop (routing_table ! target_index) of
                    Some hop \<Rightarrow> (dgram2, Handed target_interface hop)
                  | None \<Rightarrow> (dgram2, Handed target_interface dest)))"

section \<open>Network interface: data (network_interface.hh)\<close>

text \<open>
  An \<open>EthernetAddress\<close> is six bytes (\<open>std::array<uint8_t, 6>\<close>): a 48-bit value.
  \<open>size_t\<close> is 64 bits wide; its arithmetic wraps around.
\<close>

type_synonym EthernetAddress = "48 word"
type_synonym size_t = "64 word"

text \<open>
  Modelled from the spec: the constants of the headers \<open>ethernet_header.hh\<close>,
  \<open>ethernet_frame.hh\<close> and \<open>arp_message.hh\<close>, which are not among the sources. The
  spec names them as the IPv4 and ARP payload types, the request and reply opcodes and
  the distinguished broadcast link address; the values are those of Ethernet and of
  RFC 826. The value-initialised address \<open>{}\<close> of lines 79 and 86 is all zero.
\<close>

definition TYPE_IPv4 :: "16 word" where "TYPE_IPv4 = 0x800"
definition TYPE_ARP :: "16 word" where "TYPE_ARP = 0x806"
definition OPCODE_REQUEST :: "16 word" where "OPCODE_REQUEST = 1"
definition OPCODE_REPLY :: "16 word" where "OPCODE_REPLY = 2"
definition ETHERNET_BROADCAST :: EthernetAddress where "ETHERNET_BROADCAST = 0xFFFFFFFFFFFF"

text \<open>\<open>SIZE_MAX\<close>, the largest \<open>size_t\<close>.\<close>

definition SIZE_MAX :: size_t where "SIZE_MAX = - 1"

text \<open>The two members of lines 43 and 46 of the header; nothing assigns to them.\<close>

definition MAX_CACHE_TIME :: size_t where "MAX_CACHE_TIME = 30000"
definition MAX_WAITING_TIME :: size_t where "MAX_WAITING_TIME = 5000"

text \<open>
  An Ethernet frame: \<open>header.dst\<close>, \<open>header.src\<close>, \<open>header.type\<close> and the
  payload. The payload (a \<open>vector<Buffer>\<close>) is only produced by \<open>serialize\<close> and
  consumed by \<open>parse\<close>, so its type is a parameter.
\<close>

record 'p EthernetFrame =
  frame_dst :: EthernetAddress
  frame_src :: EthernetAddress
  frame_type :: "16 word"
  frame_payload :: 'p

record ARPMessage =
  sender_ethernet_address :: EthernetAddress
  sender_ip_address :: ipv4
  target_ethernet_address :: EthernetAddress
  target_ip_address :: ipv4
  opcode :: "16 word"

text \<open>
  The wire codecs \<open>serialize\<close> and \<open>parse\<close> (for datagrams and for ARP messages) are
  declared outside these sources: they are parameters of the interface's functions.
  \<open>parse\<close> fills its first argument and returns whether it succeeded: an option.
\<close>

record ('d, 'p) codec =
  serialize_dgram :: "'d \<Rightarrow> 'p"
  serialize_arp :: "ARPMessage \<Rightarrow> 'p"
  parse_dgram :: "'p \<Rightarrow> 'd option"
  parse_arp :: "'p \<Rightarrow> ARPMessage option"

record Ether_Addr_Entry =
  MAC_addr :: EthernetAddress
  caching_time :: size_t

record 'p Waiting_Packet =
  dst_ip :: ipv4
  waiting_frame :: "'p EthernetFrame"
  time :: size_t

text \<open>
  The members of the class (\<open>ethernet_address_\<close> and \<open>ip_address_\<close> without their
  trailing underscore). The two \<open>std::map\<close>s are partial functions, the two
  \<open>std::queue\<close>s lists with the front first: \<open>push\<close> appends, \<open>pop\<close> takes the head.
\<close>

record 'p NetworkInterface =
  ethernet_address :: EthernetAddress
  ip_address :: ipv4
  ARP_table :: "ipv4 \<rightharpoonup> Ether_Addr_Entry"
  ready2_sent_q :: "'p EthernetFrame list"
  waiting_q :: "'p Waiting_Packet list"
  request_history :: "ipv4 \<rightharpoonup> size_t"

text \<open>The constructor: the two addresses, and the members' default initialisers.\<close>

definition new_interface :: "EthernetAddress \<Rightarrow> ipv4 \<Rightarrow> 'p NetworkInterface" where
  "new_interface ea ip =
     \<lparr>ethernet_address = ea, ip_address = ip, ARP_table = Map.empty,
      ready2_sent_q = [], waiting_q = [], request_history = Map.empty\<rparr>"

section \<open>Network interface: operations (network_interface.cc)\<close>

text \<open>
  \<open>curr_time\<close> is not a member: it is the variable \<open>size_t curr_time = 0\<close> at file
  scope (line 8), one for the whole program. Every operation below takes its value as
  an argument, and \<open>tick\<close>, the only writer, returns the new value.
\<close>

definition make_arp_message ::
  "EthernetAddress \<Rightarrow> ipv4 \<Rightarrow> EthernetAddress \<Rightarrow> ipv4 \<Rightarrow> 16 word \<Rightarrow> ARPMessage"
where
  "make_arp_message sender_eth sender_ip target_eth target_ip opc =
     \<lparr>sender_ethernet_address = sender_eth, sender_ip_address = sender_ip,
      target_ethernet_address = target_eth, target_ip_address = target_ip, opcode = opc\<rparr>"

definition make_ethernet_frame ::
  "EthernetAddress \<Rightarrow> EthernetAddress \<Rightarrow> 16 word \<Rightarrow> 'p \<Rightarrow> 'p EthernetFrame"
where
  "make_ethernet_frame dst src ty payload =
     \<lparr>frame_dst = dst, frame_src = src, frame_type = ty, frame_payload = payload\<rparr>"

text \<open>The two frames \<open>send_datagram\<close> builds in its else branch (lines 78 to 86).\<close>

definition ARP_request_frame ::
  "('d, 'p) codec \<Rightarrow> 'p NetworkInterface \<Rightarrow> ipv4 \<Rightarrow> 'p EthernetFrame"
where
  "ARP_request_frame c ni next_hop_ip =
     make_ethernet_frame ETHERNET_BROADCAST (ethernet_address ni) TYPE_ARP
       (serialize_arp c
          (make_arp_message (ethernet_address ni) (ip_address ni) 0 next_hop_ip OPCODE_REQUEST))"

definition ether_frame_no_MAC ::
  "('d, 'p) codec \<Rightarrow> 'p NetworkInterface \<Rightarrow> 'd \<Rightarrow> 'p EthernetFrame"
where
  "ether_frame_no_MAC c ni dgram =
     make_ethernet_frame 0 (ethernet_address ni) TYPE_IPv4 (serialize_dgram c dgram)"

text \<open>
  The retry marker of line 94 and the queued datagram of line 103, as
  \<open>Waiting_Packet\<close>s.
\<close>

definition request_waiting_packet ::
  "('d, 'p) codec \<Rightarrow> 'p NetworkInterface \<Rightarrow> ipv4 \<Rightarrow> 'p Waiting_Packet"
where
  "request_waiting_packet c ni next_hop_ip =
     \<lparr>dst_ip = next_hop_ip, waiting_frame = ARP_request_frame c ni next_hop_ip, time = SIZE_MAX\<rparr>"

definition packet_no_MAC ::
  "('d, 'p) codec \<Rightarrow> 'p NetworkInterface \<Rightarrow> size_t \<Rightarrow> 'd \<Rightarrow> ipv4 \<Rightarrow> 'p Waiting_Packet"
where
  "packet_no_MAC c ni curr_time dgram next_hop_ip =
     \<lparr>dst_ip = next_hop_ip, waiting_frame = ether_frame_no_MAC c ni dgram, time = curr_time\<rparr>"

text \<open>\<open>NetworkInterface::send_datagram\<close> (lines 54 to 107).\<close>

definition send_datagram ::
  "('d, 'p) codec \<Rightarrow> size_t \<Rightarrow> 'd \<Rightarrow> ipv4 \<Rightarrow> 'p NetworkInterface \<Rightarrow> 'p NetworkInterface"
where
  "send_datagram c curr_time dgram next_hop_ip ni =
     (case ARP_table ni next_hop_ip of
        Some target \<Rightarrow>
          ni\<lparr>ready2_sent_q := ready2_sent_q ni @
                [make_ethernet_frame (MAC_addr target) (ethernet_address ni) TYPE_IPv4
                   (serialize_dgram c dgram)]\<rparr>
      | None \<Rightarrow>
          let ni1 =
            (case request_history ni next_hop_ip of
               None \<Rightarrow>
                 ni\<lparr>request_history := (request_history ni)(next_hop_ip \<mapsto> curr_time),
                    ready2_sent_q := ready2_sent_q ni @ [ARP_request_frame c ni next_hop_ip]\<rparr>
             | Some last_sent \<Rightarrow>
                 if curr_time - last_sent < MAX_WAITING_TIME
                 then ni\<lparr>waiting_q := waiting_q ni @ [request_waiting_packet c ni next_hop_ip]\<rparr>
                 else
                   ni\<lparr>request_history := (request_history ni)(next_hop_ip \<mapsto> curr_time),
                      ready2_sent_q := ready2_sent_q ni @ [ARP_request_frame c ni next_hop_ip]\<rparr>)
          in ni1\<lparr>waiting_q := waiting_q ni1 @ [packet_no_MAC c ni curr_time dgram next_hop_ip]\<rparr>)"

text \<open>
  The loop of lines 147 to 159 over the waiting queue, on receipt of an ARP reply for
  this interface: its state is the ready queue and \<open>temp_q\<close>. An element for another
  address goes to \<open>temp_q\<close>; an IPv4 frame for the sender's address gets the sender's
  link address and goes to the ready queue; any other element for the sender's address
  is only popped.
\<close>

fun reply_loop ::
  "ipv4 \<Rightarrow> EthernetAddress \<Rightarrow> 'p Waiting_Packet list \<Rightarrow> 'p EthernetFrame list \<Rightarrow>
   'p Waiting_Packet list \<Rightarrow> 'p EthernetFrame list \<times> 'p Waiting_Packet list"
where
  "reply_loop sender_ip sender_mac_addr [] ready temp_q = (ready, temp_q)"
| "reply_loop sender_ip sender_mac_addr (curr_first # rest) ready temp_q =
     (if sender_ip \<noteq> dst_ip curr_first
      then reply_loop sender_ip sender_mac_addr rest ready (temp_q @ [curr_first])
      else if sender_ip = dst_ip curr_first \<and> frame_type (waiting_frame curr_first) = TYPE_IPv4
      then reply_loop sender_ip sender_mac_addr rest
             (ready @ [(waiting_frame curr_first)\<lparr>frame_dst := sender_mac_addr\<rparr>]) temp_q
      else reply_loop sender_ip sender_mac_addr rest ready temp_q)"

text \<open>
  The body of the ARP branch of \<open>recv_frame\<close> once the message is parsed (lines 126
  to 162): learn the sender, then answer a request for this address, or flush the
  waiting queue on a reply for this address.
\<close>

definition handle_arp ::
  "('d, 'p) codec \<Rightarrow> size_t \<Rightarrow> ARPMessage \<Rightarrow> 'p NetworkInterface \<Rightarrow> 'p NetworkInterface"
where
  "handle_arp c curr_time arp_message ni =
     (let sender_ip = sender_ip_address arp_message;
          sender_mac_addr = sender_ethernet_address arp_message;
          ni1 = ni\<lparr>ARP_table := (ARP_table ni)(sender_ip \<mapsto>
                    \<lparr>MAC_addr = sender_mac_addr, caching_time = curr_time\<rparr>)\<rparr>
      in if opcode arp_message = OPCODE_REQUEST \<and> ip_address ni = target_ip_address arp_message
         then ni1\<lparr>ready2_sent_q := ready2_sent_q ni1 @
                [make_ethernet_frame sender_mac_addr (ethernet_address ni) TYPE_ARP
                   (serialize_arp c
                      (make_arp_message (ethernet_address ni) (ip_address ni)
                         sender_mac_addr sender_ip OPCODE_REPLY))]\<rparr>
         else if opcode arp_message = OPCODE_REPLY \<and> ip_address ni = target_ip_address arp_message
         then (case reply_loop sender_ip sender_mac_addr (waiting_q ni1) (ready2_sent_q ni1) [] of
                 (ready, temp_q) \<Rightarrow> ni1\<lparr>ready2_sent_q := ready, waiting_q := temp_q\<rparr>)
         else ni1)"

text \<open>
  \<open>NetworkInterface::recv_frame\<close> (lines 111 to 167): the datagram handed up, if any,
  and the interface afterwards.
\<close>

definition recv_frame ::
  "('d, 'p) codec \<Rightarrow> size_t \<Rightarrow> 'p EthernetFrame \<Rightarrow> 'p NetworkInterface \<Rightarrow>
   'd option \<times> 'p NetworkInterface"
where
  "recv_frame c curr_time frame ni =
     (if frame_dst frame = ethernet_address ni \<and> frame_type frame = TYPE_IPv4
      then (parse_dgram c (frame_payload frame), ni)
      else if (frame_dst frame = ethernet_address ni \<and> frame_type frame = TYPE_ARP)
              \<or> (frame_dst frame = ETHERNET_BROADCAST \<and> frame_type frame = TYPE_ARP)
      then (case parse_arp c (frame_payload frame) of
              Some arp_message \<Rightarrow> (None, handle_arp c curr_time arp_message ni)
            | None \<Rightarrow> (None, ni))
      else (None, ni))"

text \<open>
  The two loops of lines 177 to 188: the keys whose entry has
  \<open>curr_time - caching_time > MAX_CACHE_TIME\<close> are collected, then erased. What is left
  is the table without exactly those entries.
\<close>

definition expire_entries ::
  "size_t \<Rightarrow> (ipv4 \<rightharpoonup> Ether_Addr_Entry) \<Rightarrow> (ipv4 \<rightharpoonup> Ether_Addr_Entry)"
where
  "expire_entries curr_time table =
     (\<lambda>this_ip. case table this_ip of
        None \<Rightarrow> None
      | Some e \<Rightarrow> if MAX_CACHE_TIME < curr_time - caching_time e then None else Some e)"

text \<open>
  \<open>request_history[first_ip]\<close> of line 196 is \<open>std::map::operator[]\<close>: a key that
  is absent is inserted with the value 0, and 0 is read.
\<close>

definition history_touch :: "(ipv4 \<rightharpoonup> size_t) \<Rightarrow> ipv4 \<Rightarrow> (ipv4 \<rightharpoonup> size_t)" where
  "history_touch h first_ip = (case h first_ip of None \<Rightarrow> h(first_ip \<mapsto> 0) | Some v \<Rightarrow> h)"

definition history_read :: "(ipv4 \<rightharpoonup> size_t) \<Rightarrow> ipv4 \<Rightarrow> size_t" where
  "history_read h first_ip = (case h first_ip of None \<Rightarrow> 0 | Some v \<Rightarrow> v)"

text \<open>
  The loop of lines 192 to 210 over the waiting queue; \<open>curr_time\<close> is the clock
  already advanced. Its state is \<open>request_history\<close>, the ready queue and \<open>temp_q\<close>.
\<close>

fun tick_loop ::
  "size_t \<Rightarrow> 'p Waiting_Packet list \<Rightarrow> (ipv4 \<rightharpoonup> size_t) \<Rightarrow> 'p EthernetFrame list \<Rightarrow>
   'p Waiting_Packet list \<Rightarrow>
   (ipv4 \<rightharpoonup> size_t) \<times> 'p EthernetFrame list \<times> 'p Waiting_Packet list"
where
  "tick_loop curr_time [] h ready temp_q = (h, ready, temp_q)"
| "tick_loop curr_time (curr_first # rest) h ready temp_q =
     (let first_ip = dst_ip curr_first;
          ARP_caching_time = history_read h first_ip;
          h1 = history_touch h first_ip
      in if MAX_WAITING_TIME \<le> curr_time - ARP_caching_time
            \<and> frame_type (waiting_frame curr_first) = TYPE_ARP
            \<and> frame_dst (waiting_frame curr_first) = ETHERNET_BROADCAST
         then tick_loop curr_time rest (h1(first_ip \<mapsto> curr_time))
                (ready @ [waiting_frame curr_first]) temp_q
         else if frame_type (waiting_frame curr_first) = TYPE_IPv4
                 \<or> curr_time - time curr_first < MAX_WAITING_TIME
         then tick_loop curr_time rest h1 ready (temp_q @ [curr_first])
         else tick_loop curr_time rest h1 ready temp_q)"

text \<open>
  \<open>NetworkInterface::tick\<close> (lines 171 to 213): the new value of the global
  \<open>curr_time\<close> and the interface afterwards.
\<close>

definition tick ::
  "size_t \<Rightarrow> size_t \<Rightarrow> 'p NetworkInterface \<Rightarrow> size_t \<times> 'p NetworkInterface"
where
  "tick curr_time ms_since_last_tick ni =
     (let now = curr_time + ms_since_last_tick in
      case tick_loop now (waiting_q ni) (request_history ni) (ready2_sent_q ni) [] of
        (h, ready, temp_q) \<Rightarrow>
          (now, ni\<lparr>ARP_table := expire_entries now (ARP_table ni),
                   request_history := h, ready2_sent_q := ready, waiting_q := temp_q\<rparr>))"

text \<open>\<open>NetworkInterface::maybe_send\<close> (lines 216 to 227).\<close>

definition maybe_send :: "'p NetworkInterface \<Rightarrow> 'p EthernetFrame option \<times> 'p NetworkInterface" where
  "maybe_send ni =
     (case ready2_sent_q ni of
        first_frame # rest \<Rightarrow> (Some first_frame, ni\<lparr>ready2_sent_q := rest\<rparr>)
      | [] \<Rightarrow> (None, ni))"

section \<open>Sequences of calls on one interface\<close>

text \<open>
  A call of one of the interface's methods, and the effect of a sequence of calls on
  the pair of the global \<open>curr_time\<close> and the interface. The values the calls return
  (the datagram of \<open>recv_frame\<close>, the frame of \<open>maybe_send\<close>) are not kept here.
\<close>

datatype ('d, 'p) call =
    Send 'd ipv4
  | Recv "'p EthernetFrame"
  | Tick size_t
  | MaybeSend

fun step ::
  "('d, 'p) codec \<Rightarrow> ('d, 'p) call \<Rightarrow> size_t \<times> 'p NetworkInterface \<Rightarrow> size_t \<times> 'p NetworkInterface"
where
  "step c (Send dgram next_hop_ip) (curr_time, ni) =
     (curr_time, send_datagram c curr_time dgram next_hop_ip ni)"
| "step c (Recv frame) (curr_time, ni) = (curr_time, snd (recv_frame c curr_time frame ni))"
| "step c (Tick ms) (curr_time, ni) = tick curr_time ms ni"
| "step c MaybeSend (curr_time, ni) = (curr_time, snd (maybe_send ni))"

fun run ::
  "('d, 'p) codec \<Rightarrow> ('d, 'p) call list \<Rightarrow> size_t \<times> 'p NetworkInterface \<Rightarrow>
   size_t \<times> 'p NetworkInterface"
where
  "run c [] s = s"
| "run c (x # xs) s = run c xs (step c x s)"

text \<open>
  Along a sequence of calls from a state, every \<open>send_datagram\<close> towards the address
  \<open>x\<close> finds \<open>x\<close> in the ARP table: \<open>x\<close> is resolved whenever it is sent to.
\<close>

fun sends_find ::
  "('d, 'p) codec \<Rightarrow> ipv4 \<Rightarrow> ('d, 'p) call list \<Rightarrow> size_t \<times> 'p NetworkInterface \<Rightarrow> bool"
where
  "sends_find c x [] s = True"
| "sends_find c x (Send dgram next_hop_ip # xs) s =
     ((next_hop_ip \<noteq> x \<or> ARP_table (snd s) x \<noteq> None)
      \<and> sends_find c x xs (step c (Send dgram next_hop_ip) s))"
| "sends_find c x (other # xs) s = sends_find c x xs (step c other s)"

text \<open>
  The frames an operation appended to the ready queue: what the queue holds after it
  beyond its length before.
\<close>

definition appended :: "'p NetworkInterface \<Rightarrow> 'p NetworkInterface \<Rightarrow> 'p EthernetFrame list" where
  "appended before after = drop (length (ready2_sent_q before)) (ready2_sent_q after)"

section \<open>Views of the tick loop\<close>

text \<open>
  The three components of the result of \<open>tick_loop\<close>, each as a function of the queue
  and the history alone: the elements whose frame the loop moves to the ready queue,
  the elements it keeps, and the history it leaves. \<open>due\<close> is the test of lines 197 to
  199, \<open>retained\<close> the test of lines 205 and 206.
\<close>

definition due :: "size_t \<Rightarrow> (ipv4 \<rightharpoonup> size_t) \<Rightarrow> 'p Waiting_Packet \<Rightarrow> bool" where
  "due curr_time h p =
     (MAX_WAITING_TIME \<le> curr_time - history_read h (dst_ip p)
      \<and> frame_type (waiting_frame p) = TYPE_ARP
      \<and> frame_dst (waiting_frame p) = ETHERNET_BROADCAST)"

definition retained :: "size_t \<Rightarrow> 'p Waiting_Packet \<Rightarrow> bool" where
  "retained curr_time p =
     (frame_type (waiting_frame p) = TYPE_IPv4 \<or> curr_time - time p < MAX_WAITING_TIME)"

fun tick_sent :: "size_t \<Rightarrow> 'p Waiting_Packet list \<Rightarrow> (ipv4 \<rightharpoonup> size_t) \<Rightarrow> 'p Waiting_Packet list" where
  "tick_sent curr_time [] h = []"
| "tick_sent curr_time (p # rest) h =
     (if due curr_time h p
      then p # tick_sent curr_time rest ((history_touch h (dst_ip p))(dst_ip p \<mapsto> curr_time))
      else tick_sent curr_time rest (history_touch h (dst_ip p)))"

fun tick_kept :: "size_t \<Rightarrow> 'p Waiting_Packet list \<Rightarrow> (ipv4 \<rightharpoonup> size_t) \<Rightarrow> 'p Waiting_Packet list" where
  "tick_kept curr_time [] h = []"
| "tick_kept curr_time (p # rest) h =
     (if due curr_time h p
      then tick_kept curr_time rest ((history_touch h (dst_ip p))(dst_ip p \<mapsto> curr_time))
      else if retained curr_time p
      then p # tick_kept curr_time rest (history_touch h (dst_ip p))
      else tick_kept curr_time rest (history_touch h (dst_ip p)))"

fun tick_hist :: "size_t \<Rightarrow> 'p Waiting_Packet list \<Rightarrow> (ipv4 \<rightharpoonup> size_t) \<Rightarrow> (ipv4 \<rightharpoonup> size_t)" where
  "tick_hist curr_time [] h = h"
| "tick_hist curr_time (p # rest) h =
     (if due curr_time h p
      then tick_hist curr_time rest ((history_touch h (dst_ip p))(dst_ip p \<mapsto> curr_time))
      else tick_hist curr_time rest (history_touch h (dst_ip p)))"

text \<open>
  A retry marker as the loop recognises it: an ARP-typed frame addressed to the
  broadcast address.
\<close>

definition is_marker :: "'p Waiting_Packet \<Rightarrow> bool" where
  "is_marker p =
     (frame_type (waiting_frame p) = TYPE_ARP \<and> frame_dst (waiting_frame p) = ETHERNET_BROADCAST)"

text \<open>
  The loop moves nothing for the address \<open>x\<close>: its request is younger than
  \<open>MAX_WAITING_TIME\<close> at the new clock value, or the queue holds no marker for it.
\<close>

definition quiet :: "size_t \<Rightarrow> (ipv4 \<rightharpoonup> size_t) \<Rightarrow> ipv4 \<Rightarrow> 'p Waiting_Packet list \<Rightarrow> bool" where
  "quiet now h x q \<longleftrightarrow>
     now - history_read h x < MAX_WAITING_TIME \<or> (\<forall>p\<in>set q. dst_ip p = x \<longrightarrow> \<not> is_marker p)"

section \<open>Elapsed time and refreshing traffic\<close>

text \<open>
  The time a sequence of calls lets pass: the sum of the arguments of its ticks, as a
  natural number (it does not wrap).
\<close>

fun elapsed :: "('d, 'p) call list \<Rightarrow> nat" where
  "elapsed [] = 0"
| "elapsed (Tick ms # xs) = unat ms + elapsed xs"
| "elapsed (other # xs) = elapsed xs"



section \<open>Several interfaces in one program\<close>

text \<open>
  A program that has built several interfaces (the router's \<open>interfaces_\<close>): the one
  global \<open>curr_time\<close> and the interfaces. A call on interface \<open>i\<close> reads and writes
  that one clock and the state of interface \<open>i\<close>; there is no call on an interface
  that does not exist.
\<close>

definition call_on ::
  "('d, 'p) codec \<Rightarrow> nat \<Rightarrow> ('d, 'p) call \<Rightarrow> size_t \<times> 'p NetworkInterface list \<Rightarrow>
   size_t \<times> 'p NetworkInterface list"
where
  "call_on c i x w =
     (case w of (curr_time, interfaces) \<Rightarrow>
        if i < length interfaces
        then (case step c x (curr_time, interfaces ! i) of
                (now, ni) \<Rightarrow> (now, interfaces[i := ni]))
        else w)"

section \<open>ARP requests over time\<close>

text \<open>
  The waiting queue is well formed when each of its markers carries the frame
  \<open>send_datagram\<close> builds for the marker's own address. \<open>send_datagram\<close> queues no
  other kind of marker, and the queue of a new interface is empty.
\<close>

definition markers_wellformed :: "('d, 'p) codec \<Rightarrow> 'p NetworkInterface \<Rightarrow> bool" where
  "markers_wellformed c ni \<longleftrightarrow>
     (\<forall>p\<in>set (waiting_q ni). is_marker p \<longrightarrow> waiting_frame p = ARP_request_frame c ni (dst_ip p))"

fun send_or_tick :: "('d, 'p) call \<Rightarrow> bool" where
  "send_or_tick (Send dgram next_hop_ip) = True"
| "send_or_tick (Tick ms) = True"
| "send_or_tick other = False"

text \<open>
  The times at which a sequence of calls appends the broadcast ARP request for the
  address \<open>x\<close> to the ready queue: each call contributes the time elapsed up to and
  including it (starting from \<open>e\<close>), once for every copy of that frame among the frames
  it appended.
\<close>

fun request_times ::
  "('d, 'p) codec \<Rightarrow> ipv4 \<Rightarrow> nat \<Rightarrow> ('d, 'p) call list \<Rightarrow> size_t \<times> 'p NetworkInterface \<Rightarrow> nat list"
where
  "request_times c x e [] s = []"
| "request_times c x e (call # calls) s =
     replicate
       (count_list (appended (snd s) (snd (step c call s))) (ARP_request_frame c (snd s) x))
       (e + elapsed [call])
     @ request_times c x (e + elapsed [call]) calls (step c call s)"

text \<open>
  Each time of a list is at least 5000 after the one before it, the first one at least
  5000 after \<open>prev\<close> when there is one.
\<close>

fun gaps_ok :: "nat option \<Rightarrow> nat list \<Rightarrow> bool" where
  "gaps_ok prev [] = True"
| "gaps_ok prev (a # as) =
     ((case prev of None \<Rightarrow> True | Some b \<Rightarrow> b + 5000 \<le> a) \<and> gaps_ok (Some a) as)"

text \<open>
  The request record of \<open>x\<close> is at least as recent as the last request for \<open>x\<close>:
  when a request was appended at elapsed time \<open>b\<close>, then at elapsed time \<open>e\<close> and
  clock value \<open>t\<close> the record holds a clock value that lies \<open>d \<le> e - b\<close> back.
\<close>

definition record_follows ::
  "nat option \<Rightarrow> nat \<Rightarrow> size_t \<Rightarrow> (ipv4 \<rightharpoonup> size_t) \<Rightarrow> ipv4 \<Rightarrow> bool"
where
  "record_follows prev e t h x \<longleftrightarrow>
     (case prev of
        None \<Rightarrow> True
      | Some b \<Rightarrow> b \<le> e \<and> (\<exists>v d. h x = Some v \<and> d \<le> e - b \<and> t - v = of_nat d))"

section \<open>Concrete inputs\<close>

text \<open>
  A table with a default route and the same \<open>/24\<close> route added twice:
  \<open>0.0.0.0/0\<close> via \<open>192.168.0.1\<close> on interface 0, then \<open>192.168.0.0/24\<close>
  directly attached on interface 1, then again on interface 2.
\<close>

definition example_table :: "RoutingTableElement list" where
  "example_table =
     add_route 0xC0A80000 24 None 2
       (add_route 0xC0A80000 24 None 1
         (add_route 0 0 (Some 0xC0A80001) 0 []))"

text \<open>A stand-in for the header's checksum method, and a datagram to \<open>192.168.0.5\<close>.\<close>

definition example_checksum :: "unit InternetDatagram \<Rightarrow> unit InternetDatagram" where
  "example_checksum d = d\<lparr>header_cksum := NOT (ucast (header_ttl d))\<rparr>"

definition example_dgram :: "8 word \<Rightarrow> unit InternetDatagram" where
  "example_dgram ttl0 =
     \<lparr>header_ttl = ttl0, header_dst = 0xC0A80005, header_cksum = 0, dgram_rest = ()\<rparr>"

text \<open>
  A codec for concrete inputs: a payload is a datagram (here a number), an ARP message,
  or bytes that parse as neither.
\<close>

datatype example_payload = Dgram nat | Arp ARPMessage | Garbage

definition example_codec :: "(nat, example_payload) codec" where
  "example_codec =
     \<lparr>serialize_dgram = Dgram, serialize_arp = Arp,
      parse_dgram = (\<lambda>p. case p of Dgram d \<Rightarrow> Some d | _ \<Rightarrow> None),
      parse_arp = (\<lambda>p. case p of Arp m \<Rightarrow> Some m | _ \<Rightarrow> None)\<rparr>"

text \<open>
  Interface A of the spec's scenario: link address \<open>aa:aa:aa:aa:aa:aa\<close>, IP
  \<open>10.0.0.1\<close>. Its neighbour \<open>10.0.0.2\<close> has link address \<open>bb:bb:bb:bb:bb:bb\<close>;
  \<open>10.0.0.3\<close> is another neighbour.
\<close>

definition iface_A :: "example_payload NetworkInterface" where
  "iface_A = new_interface 0xAAAAAAAAAAAA 0x0A000001"

definition ip_B :: ipv4 where "ip_B = 0x0A000002"
definition mac_B :: EthernetAddress where "mac_B = 0xBBBBBBBBBBBB"
definition ip_C :: ipv4 where "ip_C = 0x0A000003"

text \<open>An ARP reply from \<open>10.0.0.2\<close> to interface A, and an ARP request from it.\<close>

definition reply_from_B :: "example_payload EthernetFrame" where
  "reply_from_B =
     make_ethernet_frame 0xAAAAAAAAAAAA mac_B TYPE_ARP
       (Arp (make_arp_message mac_B ip_B 0xAAAAAAAAAAAA 0x0A000001 OPCODE_REPLY))"

definition request_from_B :: "example_payload EthernetFrame" where
  "request_from_B =
     make_ethernet_frame ETHERNET_BROADCAST mac_B TYPE_ARP
       (Arp (make_arp_message mac_B ip_B 0 ip_C OPCODE_REQUEST))"

text \<open>
  Interface A after four sends at time 0: datagrams 1, 3 and 4 towards \<open>10.0.0.2\<close>
  and datagram 2 towards \<open>10.0.0.3\<close>, none of them resolved.
\<close>

definition queued_state :: "size_t \<times> example_payload NetworkInterface" where
  "queued_state =
     run example_codec [Send 1 ip_B, Send 2 ip_C, Send 3 ip_B, Send 4 ip_B] (0, iface_A)"

text \<open>
  Interface A with one datagram pending for \<open>10.0.0.2\<close> and nothing else, 6000 ms
  after the only ARP request for it was sent.
\<close>

definition pending_state :: "size_t \<times> example_payload NetworkInterface" where
  "pending_state = run example_codec [Send 1 ip_B, Tick 6000] (0, iface_A)"

text \<open>Interface A after two sends to \<open>10.0.0.2\<close> at time 0: the second queued a marker.\<close>

definition marker_state :: "size_t \<times> example_payload NetworkInterface" where
  "marker_state = run example_codec [Send 1 ip_B, Send 2 ip_B] (0, iface_A)"

text \<open>
  The same two sends made when the clock stands 10 ms before \<open>SIZE_MAX\<close>.
\<close>

definition wrap_state :: "size_t \<times> example_payload NetworkInterface" where
  "wrap_state = run example_codec [Tick (SIZE_MAX - 10), Send 1 ip_B, Send 2 ip_B] (0, iface_A)"




text \<open>
  A program with two interfaces, A and a second one (link address
  \<open>cc:cc:cc:cc:cc:cc\<close>, IP \<open>192.168.0.1\<close>), just built.
\<close>

definition iface_R :: "example_payload NetworkInterface" where
  "iface_R = new_interface 0xCCCCCCCCCCCC 0xC0A80001"

definition two_interfaces :: "size_t \<times> example_payload NetworkInterface list" where
  "two_interfaces = (0, [iface_A, iface_R])"

text \<open>
  Interface A after the two sends to \<open>10.0.0.2\<close> at time 0 and the ARP reply from
  \<open>10.0.0.2\<close>; and the same interface once the entry has expired (a tick of 30001 ms),
  two more datagrams were sent to \<open>10.0.0.2\<close>, and the address was learned again from
  an ARP request \<open>10.0.0.2\<close> broadcast.
\<close>

definition resolved_state :: "size_t \<times> example_payload NetworkInterface" where
  "resolved_state = step example_codec (Recv reply_from_B) marker_state"

definition relearned_state :: "size_t \<times> example_payload NetworkInterface" where
  "relearned_state =
     run example_codec [Tick 30001, Send 5 ip_B, Send 6 ip_B, Recv request_from_B] resolved_state"

section \<open>The routing table: properties\<close>

subsection \<open>Adding a route\<close>

text \<open>
  C7, as the code has it. \<open>add_route\<close> has no check: whatever the prefix length (any
  value of the \<open>uint8_t\<close>, those above 32 included), the table grows by exactly the
  new element, put last with its four fields as given, and the elements before it are
  unchanged.
\<close>

theorem add_route_appends_every_length:
  "length (add_route p len h n routing_table) = Suc (length routing_table)
   \<and> take (length routing_table) (add_route p len h n routing_table) = routing_table
   \<and> last (add_route p len h n routing_table) =
       \<lparr>route_prefix = p, prefix_length = len, next_hop = h, interface_num = n\<rparr>"
  by (simp add: add_route_def)

text \<open>
  C7 as written fails: a route of prefix length 33 is not rejected, it is in the table
  after the call.
\<close>

theorem add_route_33_not_rejected:
  "(32 :: 8 word) < 33
   \<and> add_route 0 33 None 0 [] =
       [\<lparr>route_prefix = 0, prefix_length = 33, next_hop = None, interface_num = 0\<rparr>]"
  by (simp add: add_route_def)

subsection \<open>The mask\<close>

lemma bitmask_bit:
  assumes "len \<le> 32"
  shows "bit (bitmask len) n \<longleftrightarrow> 32 - unat len \<le> n \<and> n < 32"
proof (cases "len = 0")
  case True
  then show ?thesis by (simp add: bitmask_def)
next
  case False
  then have pos: "0 < unat len" by (simp add: unat_gt_0)
  from assms have le: "unat len \<le> 32" by (simp add: word_le_nat_alt)
  have b: "bit (push_bit 31 1 :: 32 word) k \<longleftrightarrow> k = 31" for k
    by (simp only: bit_push_bit_iff bit_1_iff possible_bit_word) auto
  have e: "(0x80000000 :: 32 word) = push_bit 31 1" by simp
  from False assms have "bitmask len = signed_drop_bit (unat len - 1) (push_bit 31 1 :: 32 word)"
    unfolding bitmask_def e by (simp add: word_neq_0_conv)
  then have "bit (bitmask len) n \<longleftrightarrow>
     bit (push_bit 31 1 :: 32 word) (if 32 - (unat len - 1) \<le> n \<and> n < 32 then 31 else unat len - 1 + n)"
    by (simp only: bit_signed_drop_bit_iff) simp
  also have "\<dots> \<longleftrightarrow> 32 - unat len \<le> n \<and> n < 32"
    unfolding b using pos le by (auto split: if_splits)
  finally show ?thesis .
qed

lemma best_route_loop_cases:
  "(best_route_loop dest rs i ti ll = ti \<and>
      (\<forall>r\<in>set rs. route_matches dest r \<longrightarrow> uint (prefix_length r) < ll))
   \<or> (\<exists>j<length rs. best_route_loop dest rs i ti ll = i + int j \<and>
         route_matches dest (rs ! j) \<and> ll \<le> uint (prefix_length (rs ! j)) \<and>
         (\<forall>j'<length rs. route_matches dest (rs ! j') \<longrightarrow>
            uint (prefix_length (rs ! j')) \<le> uint (prefix_length (rs ! j)) \<and>
            (uint (prefix_length (rs ! j')) = uint (prefix_length (rs ! j)) \<longrightarrow> j' \<le> j)))"
proof (induction rs arbitrary: i ti ll)
  case Nil
  then show ?case by simp
next
  case (Cons r rs)
  show ?case
  proof (cases "route_matches dest r \<and> ll \<le> uint (prefix_length r)")
    case True
    from Cons.IH [of "i + 1" i "uint (prefix_length r)"]
    show ?thesis
    proof
      assume a: "best_route_loop dest rs (i + 1) i (uint (prefix_length r)) = i \<and>
        (\<forall>r'\<in>set rs. route_matches dest r' \<longrightarrow> uint (prefix_length r') < uint (prefix_length r))"
      have "\<exists>j<length (r # rs). best_route_loop dest (r # rs) i ti ll = i + int j \<and>
         route_matches dest ((r # rs) ! j) \<and> ll \<le> uint (prefix_length ((r # rs) ! j)) \<and>
         (\<forall>j'<length (r # rs). route_matches dest ((r # rs) ! j') \<longrightarrow>
            uint (prefix_length ((r # rs) ! j')) \<le> uint (prefix_length ((r # rs) ! j)) \<and>
            (uint (prefix_length ((r # rs) ! j')) = uint (prefix_length ((r # rs) ! j)) \<longrightarrow> j' \<le> j))"
        apply (rule exI [of _ 0])
        using True a by (auto simp: nth_Cons split: nat.splits dest: nth_mem)
      then show ?thesis ..
    next
      assume "\<exists>j<length rs. best_route_loop dest rs (i + 1) i (uint (prefix_length r)) = i + 1 + int j \<and>
         route_matches dest (rs ! j) \<and> uint (prefix_length r) \<le> uint (prefix_length (rs ! j)) \<and>
         (\<forall>j'<length rs. route_matches dest (rs ! j') \<longrightarrow>
            uint (prefix_length (rs ! j')) \<le> uint (prefix_length (rs ! j)) \<and>
            (uint (prefix_length (rs ! j')) = uint (prefix_length (rs ! j)) \<longrightarrow> j' \<le> j))"
      then obtain j where j: "j < length rs"
        "best_route_loop dest rs (i + 1) i (uint (prefix_length r)) = i + 1 + int j"
        "route_matches dest (rs ! j)" "uint (prefix_length r) \<le> uint (prefix_length (rs ! j))"
        "\<forall>j'<length rs. route_matches dest (rs ! j') \<longrightarrow>
            uint (prefix_length (rs ! j')) \<le> uint (prefix_length (rs ! j)) \<and>
            (uint (prefix_length (rs ! j')) = uint (prefix_length (rs ! j)) \<longrightarrow> j' \<le> j)"
        by blast
      have "\<exists>j<length (r # rs). best_route_loop dest (r # rs) i ti ll = i + int j \<and>
         route_matches dest ((r # rs) ! j) \<and> ll \<le> uint (prefix_length ((r # rs) ! j)) \<and>
         (\<forall>j'<length (r # rs). route_matches dest ((r # rs) ! j') \<longrightarrow>
            uint (prefix_length ((r # rs) ! j')) \<le> uint (prefix_length ((r # rs) ! j)) \<and>
            (uint (prefix_length ((r # rs) ! j')) = uint (prefix_length ((r # rs) ! j)) \<longrightarrow> j' \<le> j))"
        apply (rule exI [of _ "Suc j"])
        using True j by (auto simp: nth_Cons split: nat.splits)
      then show ?thesis ..
    qed
  next
    case False
    from Cons.IH [of "i + 1" ti ll]
    show ?thesis
    proof
      assume a: "best_route_loop dest rs (i + 1) ti ll = ti \<and>
        (\<forall>r'\<in>set rs. route_matches dest r' \<longrightarrow> uint (prefix_length r') < ll)"
      then show ?thesis using False by auto
    next
      assume "\<exists>j<length rs. best_route_loop dest rs (i + 1) ti ll = i + 1 + int j \<and>
         route_matches dest (rs ! j) \<and> ll \<le> uint (prefix_length (rs ! j)) \<and>
         (\<forall>j'<length rs. route_matches dest (rs ! j') \<longrightarrow>
            uint (prefix_length (rs ! j')) \<le> uint (prefix_length (rs ! j)) \<and>
            (uint (prefix_length (rs ! j')) = uint (prefix_length (rs ! j)) \<longrightarrow> j' \<le> j))"
      then obtain j where j: "j < length rs"
        "best_route_loop dest rs (i + 1) ti ll = i + 1 + int j"
        "route_matches dest (rs ! j)" "ll \<le> uint (prefix_length (rs ! j))"
        "\<forall>j'<length rs. route_matches dest (rs ! j') \<longrightarrow>
            uint (prefix_length (rs ! j')) \<le> uint (prefix_length (rs ! j)) \<and>
            (uint (prefix_length (rs ! j')) = uint (prefix_length (rs ! j)) \<longrightarrow> j' \<le> j)"
        by blast
      have "\<exists>j<length (r # rs). best_route_loop dest (r # rs) i ti ll = i + int j \<and>
         route_matches dest ((r # rs) ! j) \<and> ll \<le> uint (prefix_length ((r # rs) ! j)) \<and>
         (\<forall>j'<length (r # rs). route_matches dest ((r # rs) ! j') \<longrightarrow>
            uint (prefix_length ((r # rs) ! j')) \<le> uint (prefix_length ((r # rs) ! j)) \<and>
            (uint (prefix_length ((r # rs) ! j')) = uint (prefix_length ((r # rs) ! j)) \<longrightarrow> j' \<le> j))"
        apply (rule exI [of _ "Suc j"])
        using False j by (auto simp: nth_Cons split: nat.splits)
      then show ?thesis ..
    qed
  qed
qed


lemma lookup_None_iff:
  "lookup routing_table dest = None \<longleftrightarrow> (\<forall>r\<in>set routing_table. \<not> route_matches dest r)"
proof -
  have nonneg: "\<not> uint (prefix_length r) < - 1" for r :: RoutingTableElement
    by (smt (verit) uint_ge_0)
  from best_route_loop_cases [of dest routing_table 0 "- 1" "- 1"]
  show ?thesis
  proof
    assume "best_route_loop dest routing_table 0 (- 1) (- 1) = - 1 \<and>
      (\<forall>r\<in>set routing_table. route_matches dest r \<longrightarrow> uint (prefix_length r) < - 1)"
    then show ?thesis using nonneg by (auto simp: lookup_def)
  next
    assume "\<exists>j<length routing_table. best_route_loop dest routing_table 0 (- 1) (- 1) = 0 + int j \<and>
         route_matches dest (routing_table ! j) \<and> - 1 \<le> uint (prefix_length (routing_table ! j)) \<and>
         (\<forall>j'<length routing_table. route_matches dest (routing_table ! j') \<longrightarrow>
            uint (prefix_length (routing_table ! j')) \<le> uint (prefix_length (routing_table ! j)) \<and>
            (uint (prefix_length (routing_table ! j')) = uint (prefix_length (routing_table ! j)) \<longrightarrow> j' \<le> j))"
    then obtain j where "j < length routing_table"
      "best_route_loop dest routing_table 0 (- 1) (- 1) = int j" "route_matches dest (routing_table ! j)"
      by auto
    then show ?thesis by (auto simp: lookup_def Let_def dest: nth_mem)
  qed
qed

lemma lookup_Some:
  assumes "lookup routing_table dest = Some k"
  shows "k < length routing_table \<and> route_matches dest (routing_table ! k) \<and>
     (\<forall>j<length routing_table. route_matches dest (routing_table ! j) \<longrightarrow>
        prefix_length (routing_table ! j) \<le> prefix_length (routing_table ! k) \<and>
        (prefix_length (routing_table ! j) = prefix_length (routing_table ! k) \<longrightarrow> j \<le> k))"
proof -
  from assms have ne: "best_route_loop dest routing_table 0 (- 1) (- 1) \<noteq> - 1"
    and k: "k = nat (best_route_loop dest routing_table 0 (- 1) (- 1))"
    by (auto simp: lookup_def Let_def split: if_splits)
  from best_route_loop_cases [of dest routing_table 0 "- 1" "- 1"] ne
  obtain j where j: "j < length routing_table"
      "best_route_loop dest routing_table 0 (- 1) (- 1) = int j" "route_matches dest (routing_table ! j)"
      "\<forall>j'<length routing_table. route_matches dest (routing_table ! j') \<longrightarrow>
            uint (prefix_length (routing_table ! j')) \<le> uint (prefix_length (routing_table ! j)) \<and>
            (uint (prefix_length (routing_table ! j')) = uint (prefix_length (routing_table ! j)) \<longrightarrow> j' \<le> j)"
    by auto
  from k j(2) have "k = j" by simp
  with j show ?thesis by (auto simp: word_le_def)
qed


subsection \<open>Longest-prefix match\<close>

text \<open>
  C1. For a prefix length within \<open>0..32\<close> the mask has exactly its top
  \<open>prefix_length\<close> bits set (bit \<open>n\<close> is set iff \<open>32 - prefix_length \<le> n < 32\<close>),
  and it is zero for length 0. The lookup answers no route exactly when no element
  matches (\<open>dest AND mask\<close> equal to the element's prefix). When it answers index
  \<open>k\<close>, element \<open>k\<close> matches, no matching element has a longer prefix, and every
  matching element of the same prefix length stands at or before \<open>k\<close>: of the longest
  matches the one added last is chosen. With no route the datagram is dropped unchanged.
\<close>

theorem lookup_longest_prefix_match:
  "(\<forall>len\<le>32. \<forall>n. bit (bitmask len) n \<longleftrightarrow> 32 - unat len \<le> n \<and> n < 32)
   \<and> bitmask 0 = 0
   \<and> (lookup routing_table dest = None \<longleftrightarrow> (\<forall>r\<in>set routing_table. \<not> route_matches dest r))
   \<and> (\<forall>k. lookup routing_table dest = Some k \<longrightarrow>
         k < length routing_table \<and> route_matches dest (routing_table ! k) \<and>
         (\<forall>j<length routing_table. route_matches dest (routing_table ! j) \<longrightarrow>
            prefix_length (routing_table ! j) \<le> prefix_length (routing_table ! k) \<and>
            (prefix_length (routing_table ! j) = prefix_length (routing_table ! k) \<longrightarrow> j \<le> k)))
   \<and> (header_dst dgram = dest \<and> lookup routing_table dest = None \<longrightarrow>
         route_single_dgram compute_checksum routing_table dgram = (dgram, Dropped))"
proof -
  have m: "\<forall>len\<le>32. \<forall>n. bit (bitmask len) n \<longleftrightarrow> 32 - unat len \<le> n \<and> n < 32"
    using bitmask_bit by blast
  have z: "bitmask 0 = 0" by (simp add: bitmask_def)
  have d: "header_dst dgram = dest \<and> lookup routing_table dest = None \<longrightarrow>
         route_single_dgram compute_checksum routing_table dgram = (dgram, Dropped)"
    by (auto simp add: route_single_dgram_def)
  show ?thesis using m z lookup_None_iff [of routing_table dest] lookup_Some [of routing_table dest] d
    by blast
qed


theorem lookup_longest_prefix_match_witness:
  "lookup example_table 0xC0A80005 = Some 2
   \<and> 2 < length example_table
   \<and> route_matches 0xC0A80005 (example_table ! 2)
   \<and> route_matches 0xC0A80005 (example_table ! 1)
   \<and> prefix_length (example_table ! 1) = prefix_length (example_table ! 2)
   \<and> route_matches 0xC0A80005 (example_table ! 0)
   \<and> prefix_length (example_table ! 0) \<le> prefix_length (example_table ! 2)
   \<and> bit (bitmask 24) 8 \<and> \<not> bit (bitmask 24) 7
   \<and> lookup (tl example_table) 0x08080808 = None
   \<and> route_single_dgram example_checksum (tl example_table)
        ((example_dgram 64)\<lparr>header_dst := 0x08080808\<rparr>) =
       ((example_dgram 64)\<lparr>header_dst := 0x08080808\<rparr>, Dropped)"
proof -
  have l: "lookup example_table 0xC0A80005 = Some 2"
    by (simp add: example_table_def add_route_def lookup_def route_matches_def bitmask_def)
  have m1: "route_matches 0xC0A80005 (example_table ! 1)"
    by (simp add: example_table_def add_route_def route_matches_def bitmask_def)
  have m0: "route_matches 0xC0A80005 (example_table ! 0)"
    by (simp add: example_table_def add_route_def route_matches_def bitmask_def)
  have p1: "prefix_length (example_table ! 1) = prefix_length (example_table ! 2)"
    by (simp add: example_table_def add_route_def)
  have n: "length example_table = 3"
    by (simp add: example_table_def add_route_def)
  note t = lookup_longest_prefix_match [of example_table "0xC0A80005"]
  from t l have k: "2 < length example_table \<and> route_matches 0xC0A80005 (example_table ! 2) \<and>
         (\<forall>j<length example_table. route_matches 0xC0A80005 (example_table ! j) \<longrightarrow>
            prefix_length (example_table ! j) \<le> prefix_length (example_table ! 2) \<and>
            (prefix_length (example_table ! j) = prefix_length (example_table ! 2) \<longrightarrow> j \<le> 2))"
    by blast
  from k m0 n have p0: "prefix_length (example_table ! 0) \<le> prefix_length (example_table ! 2)"
    by simp
  have le: "(24 :: 8 word) \<le> 32" by simp
  from t le have b: "\<forall>n. bit (bitmask 24) n \<longleftrightarrow> 32 - unat (24 :: 8 word) \<le> n \<and> n < 32"
    by blast
  from b have bb: "bit (bitmask 24) 8" "\<not> bit (bitmask 24) 7" by simp_all
  have nr: "lookup (tl example_table) 0x08080808 = None"
    by (simp add: example_table_def add_route_def lookup_def route_matches_def bitmask_def)
  have hd: "header_dst ((example_dgram 64)\<lparr>header_dst := 0x08080808\<rparr>) = 0x08080808" by simp
  from lookup_longest_prefix_match [of "tl example_table" "0x08080808"
      "(example_dgram 64)\<lparr>header_dst := 0x08080808\<rparr>" example_checksum] nr hd
  have dr: "route_single_dgram example_checksum (tl example_table)
        ((example_dgram 64)\<lparr>header_dst := 0x08080808\<rparr>) =
       ((example_dgram 64)\<lparr>header_dst := 0x08080808\<rparr>, Dropped)"
    by blast
  from l k m1 p1 m0 p0 bb nr dr show ?thesis by blast
qed

subsection \<open>Forwarding one datagram\<close>

text \<open>
  C5. A datagram whose TTL is 0 on arrival is dropped as it is: the result is the
  datagram unchanged, whatever the table holds. Otherwise, with no route it is dropped
  unchanged; with a route its TTL is decremented, and when that gives 0 it is dropped
  with the decremented TTL and no checksum computed; only when the decremented TTL is
  positive is the checksum computed and the datagram handed to the route's interface,
  towards the route's next hop or, for a directly attached route, its own destination.
\<close>

theorem route_single_dgram_ttl:
  "(header_ttl dgram = 0 \<longrightarrow>
      route_single_dgram compute_checksum routing_table dgram = (dgram, Dropped))
   \<and> (header_ttl dgram \<noteq> 0 \<and> lookup routing_table (header_dst dgram) = None \<longrightarrow>
      route_single_dgram compute_checksum routing_table dgram = (dgram, Dropped))
   \<and> (\<forall>k. header_ttl dgram = 1 \<and> lookup routing_table (header_dst dgram) = Some k \<longrightarrow>
      route_single_dgram compute_checksum routing_table dgram =
        (dgram\<lparr>header_ttl := 0\<rparr>, Dropped))
   \<and> (\<forall>k. 1 < header_ttl dgram \<and> lookup routing_table (header_dst dgram) = Some k \<longrightarrow>
      route_single_dgram compute_checksum routing_table dgram =
        (compute_checksum (dgram\<lparr>header_ttl := header_ttl dgram - 1\<rparr>),
         Handed (interface_num (routing_table ! k))
           (case next_hop (routing_table ! k) of Some hop \<Rightarrow> hop | None \<Rightarrow> header_dst dgram)))"
proof -
  have a: "header_ttl dgram = 0 \<longrightarrow>
      route_single_dgram compute_checksum routing_table dgram = (dgram, Dropped)"
    by (simp add: route_single_dgram_def)
  have b: "header_ttl dgram \<noteq> 0 \<and> lookup routing_table (header_dst dgram) = None \<longrightarrow>
      route_single_dgram compute_checksum routing_table dgram = (dgram, Dropped)"
    by (simp add: route_single_dgram_def)
  have c: "header_ttl dgram = 1 \<and> lookup routing_table (header_dst dgram) = Some k \<longrightarrow>
      route_single_dgram compute_checksum routing_table dgram =
        (dgram\<lparr>header_ttl := 0\<rparr>, Dropped)" for k
    by (simp add: route_single_dgram_def)
  have d: "1 < header_ttl dgram \<and> lookup routing_table (header_dst dgram) = Some k \<longrightarrow>
      route_single_dgram compute_checksum routing_table dgram =
        (compute_checksum (dgram\<lparr>header_ttl := header_ttl dgram - 1\<rparr>),
         Handed (interface_num (routing_table ! k))
           (case next_hop (routing_table ! k) of Some hop \<Rightarrow> hop | None \<Rightarrow> header_dst dgram))" for k
  proof (intro impI, elim conjE)
    assume t: "1 < header_ttl dgram" and l: "lookup routing_table (header_dst dgram) = Some k"
    from t have nz: "header_ttl dgram \<noteq> 0" by auto
    from t have nz1: "header_ttl dgram - 1 \<noteq> 0" by auto
    show "route_single_dgram compute_checksum routing_table dgram =
        (compute_checksum (dgram\<lparr>header_ttl := header_ttl dgram - 1\<rparr>),
         Handed (interface_num (routing_table ! k))
           (case next_hop (routing_table ! k) of Some hop \<Rightarrow> hop | None \<Rightarrow> header_dst dgram))"
      using nz nz1 l by (simp add: route_single_dgram_def Let_def split: option.split)
  qed
  from a b c d show ?thesis by blast
qed

theorem route_single_dgram_ttl_witness:
  "route_single_dgram example_checksum example_table (example_dgram 0) = (example_dgram 0, Dropped)
   \<and> route_single_dgram example_checksum example_table (example_dgram 1) =
       ((example_dgram 1)\<lparr>header_ttl := 0\<rparr>, Dropped)
   \<and> route_single_dgram example_checksum example_table (example_dgram 2) =
       ((example_dgram 1)\<lparr>header_cksum := 0xFFFE\<rparr>, Handed 2 0xC0A80005)
   \<and> route_single_dgram example_checksum [] (example_dgram 2) = (example_dgram 2, Dropped)"
proof -
  have l: "lookup example_table (header_dst (example_dgram t)) = Some 2" for t
    by (simp add: example_dgram_def example_table_def add_route_def lookup_def
        route_matches_def bitmask_def)
  have e: "lookup [] (header_dst (example_dgram 2)) = None"
    by (simp add: lookup_def)
  have h0: "header_ttl (example_dgram 0) = 0" and h1: "header_ttl (example_dgram 1) = 1"
    and h2: "1 < header_ttl (example_dgram 2)" and h2': "header_ttl (example_dgram 2) \<noteq> 0"
    by (simp_all add: example_dgram_def)
  from route_single_dgram_ttl [of "example_dgram 0" example_checksum example_table] h0
  have r0: "route_single_dgram example_checksum example_table (example_dgram 0) =
      (example_dgram 0, Dropped)" by blast
  from route_single_dgram_ttl [of "example_dgram 1" example_checksum example_table] h1 l
  have r1: "route_single_dgram example_checksum example_table (example_dgram 1) =
       ((example_dgram 1)\<lparr>header_ttl := 0\<rparr>, Dropped)" by blast
  from route_single_dgram_ttl [of "example_dgram 2" example_checksum example_table] h2 l
  have "route_single_dgram example_checksum example_table (example_dgram 2) =
        (example_checksum ((example_dgram 2)\<lparr>header_ttl := header_ttl (example_dgram 2) - 1\<rparr>),
         Handed (interface_num (example_table ! 2))
           (case next_hop (example_table ! 2) of Some hop \<Rightarrow> hop
            | None \<Rightarrow> header_dst (example_dgram 2)))" by blast
  then have r2: "route_single_dgram example_checksum example_table (example_dgram 2) =
       ((example_dgram 1)\<lparr>header_cksum := 0xFFFE\<rparr>, Handed 2 0xC0A80005)"
    by (simp add: example_dgram_def example_checksum_def example_table_def add_route_def)
  from route_single_dgram_ttl [of "example_dgram 2" example_checksum "[]"] h2' e
  have r3: "route_single_dgram example_checksum [] (example_dgram 2) = (example_dgram 2, Dropped)"
    by blast
  from r0 r1 r2 r3 show ?thesis by blast
qed

section \<open>The network interface: properties\<close>

subsection \<open>The loops\<close>

lemma types_distinct: "TYPE_IPv4 \<noteq> TYPE_ARP" "TYPE_ARP \<noteq> TYPE_IPv4"
  by (simp_all add: TYPE_IPv4_def TYPE_ARP_def)

lemma history_read_touch [simp]: "history_read (history_touch h y) x = history_read h x"
  by (simp add: history_read_def history_touch_def split: option.split)

lemma history_read_upd [simp]:
  "history_read (h(y \<mapsto> v)) x = (if x = y then v else history_read h x)"
  by (simp add: history_read_def)

lemma history_touch_other: "x \<noteq> y \<Longrightarrow> history_touch h y x = h x"
  by (simp add: history_touch_def split: option.split)

lemma history_touch_Some: "h x = Some v \<Longrightarrow> history_touch h y x = Some v"
  by (auto simp add: history_touch_def split: option.split)

lemma tick_loop_views:
  "tick_loop now q h ready temp_q =
     (tick_hist now q h, ready @ map waiting_frame (tick_sent now q h), temp_q @ tick_kept now q h)"
  by (induction q arbitrary: h ready temp_q) (simp_all add: Let_def due_def retained_def)

lemma tick_views:
  "tick t ms ni =
     (t + ms,
      ni\<lparr>ARP_table := expire_entries (t + ms) (ARP_table ni),
         request_history := tick_hist (t + ms) (waiting_q ni) (request_history ni),
         ready2_sent_q := ready2_sent_q ni @
            map waiting_frame (tick_sent (t + ms) (waiting_q ni) (request_history ni)),
         waiting_q := tick_kept (t + ms) (waiting_q ni) (request_history ni)\<rparr>)"
  by (simp add: tick_def Let_def tick_loop_views)

lemma due_marker: "due now h p \<Longrightarrow> is_marker p"
  by (simp add: due_def is_marker_def)

lemma due_iff: "due now h p \<longleftrightarrow> MAX_WAITING_TIME \<le> now - history_read h (dst_ip p) \<and> is_marker p"
  by (auto simp add: due_def is_marker_def)

lemma tick_sent_subset: "set (tick_sent now q h) \<subseteq> {p \<in> set q. is_marker p}"
  by (induction q arbitrary: h) (auto simp: due_iff)

lemma tick_kept_subset: "set (tick_kept now q h) \<subseteq> set q"
  by (induction q arbitrary: h) auto

lemma tick_kept_datagrams:
  "filter (\<lambda>p. frame_type (waiting_frame p) = TYPE_IPv4) (tick_kept now q h) =
   filter (\<lambda>p. frame_type (waiting_frame p) = TYPE_IPv4) q"
  by (induction q arbitrary: h) (auto simp: due_def retained_def types_distinct)

lemma quiet_step:
  assumes "quiet now h x (p # rest)"
  shows "\<not> due now h p \<Longrightarrow> quiet now (history_touch h (dst_ip p)) x rest"
    and "due now h p \<Longrightarrow> dst_ip p \<noteq> x"
    and "due now h p \<Longrightarrow> quiet now ((history_touch h (dst_ip p))(dst_ip p \<mapsto> now)) x rest"
proof -
  show "\<not> due now h p \<Longrightarrow> quiet now (history_touch h (dst_ip p)) x rest"
    using assms by (auto simp: quiet_def)
  show ne: "due now h p \<Longrightarrow> dst_ip p \<noteq> x"
    using assms by (auto simp: quiet_def due_iff)
  show "due now h p \<Longrightarrow> quiet now ((history_touch h (dst_ip p))(dst_ip p \<mapsto> now)) x rest"
    using assms ne by (auto simp: quiet_def)
qed

lemma tick_quiet_all:
  assumes "quiet now h x q"
  shows "filter (\<lambda>p. dst_ip p = x) (tick_sent now q h) = []
     \<and> history_read (tick_hist now q h) x = history_read h x
     \<and> (\<forall>v. h x = Some v \<longrightarrow> tick_hist now q h x = Some v)
     \<and> filter (\<lambda>p. dst_ip p = x) (tick_kept now q h) =
         filter (\<lambda>p. dst_ip p = x \<and> retained now p) q"
  using assms
proof (induction q arbitrary: h)
  case Nil
  show ?case by simp
next
  case (Cons p rest)
  show ?case
  proof (cases "due now h p")
    case True
    note ne = quiet_step(2) [OF Cons.prems True]
    note ih = Cons.IH [OF quiet_step(3) [OF Cons.prems True]]
    from ne have "\<And>v. h x = Some v \<Longrightarrow>
        ((history_touch h (dst_ip p))(dst_ip p \<mapsto> now)) x = Some v"
      by (simp add: history_touch_Some)
    with ih ne True show ?thesis by (simp del: fun_upd_apply)
  next
    case False
    note ih = Cons.IH [OF quiet_step(1) [OF Cons.prems False]]
    have "\<And>v. h x = Some v \<Longrightarrow> history_touch h (dst_ip p) x = Some v"
      by (simp add: history_touch_Some)
    with ih False show ?thesis by (auto simp del: fun_upd_apply)
  qed
qed

lemma tick_fires:
  assumes "MAX_WAITING_TIME \<le> now - history_read h x"
    and "\<exists>p\<in>set q. dst_ip p = x \<and> is_marker p"
  shows "filter (\<lambda>p. dst_ip p = x) (tick_sent now q h) =
           [hd (filter (\<lambda>p. dst_ip p = x \<and> is_marker p) q)]
     \<and> tick_hist now q h x = Some now"
  using assms
proof (induction q arbitrary: h)
  case Nil
  then show ?case by simp
next
  case (Cons p rest)
  show ?case
  proof (cases "dst_ip p = x")
    case False
    with Cons.prems have ex: "\<exists>p\<in>set rest. dst_ip p = x \<and> is_marker p" by auto
    from False Cons.prems(1)
    have a1: "MAX_WAITING_TIME \<le> now - history_read (history_touch h (dst_ip p)) x"
      and a2: "MAX_WAITING_TIME \<le> now - history_read ((history_touch h (dst_ip p))(dst_ip p \<mapsto> now)) x"
      by simp_all
    from Cons.IH [OF a1 ex] Cons.IH [OF a2 ex] False show ?thesis
      by (simp del: fun_upd_apply)
  next
    case True
    show ?thesis
    proof (cases "is_marker p")
      case m: True
      with True Cons.prems(1) have d: "due now h p" by (simp add: due_iff)
      have "now - history_read ((history_touch h (dst_ip p))(dst_ip p \<mapsto> now)) x < MAX_WAITING_TIME"
        using True by (simp add: MAX_WAITING_TIME_def)
      then have "quiet now ((history_touch h (dst_ip p))(dst_ip p \<mapsto> now)) x rest"
        by (simp add: quiet_def)
      from tick_quiet_all [OF this] True
      have "filter (\<lambda>p. dst_ip p = x)
              (tick_sent now rest ((history_touch h (dst_ip p))(dst_ip p \<mapsto> now))) = []"
        and "tick_hist now rest ((history_touch h (dst_ip p))(dst_ip p \<mapsto> now)) x = Some now"
        by (simp_all del: fun_upd_apply add: fun_upd_same)
      with d True m show ?thesis by (simp del: fun_upd_apply)
    next
      case m: False
      with True have nd: "\<not> due now h p" by (simp add: due_iff)
      from m True Cons.prems have ex: "\<exists>p\<in>set rest. dst_ip p = x \<and> is_marker p" by auto
      from Cons.prems(1)
      have a1: "MAX_WAITING_TIME \<le> now - history_read (history_touch h (dst_ip p)) x" by simp
      from Cons.IH [OF a1 ex] nd m True show ?thesis by (simp del: fun_upd_apply)
    qed
  qed
qed

lemma tick_sent_at_most_one:
  "length (filter (\<lambda>p. dst_ip p = x) (tick_sent now q h)) \<le> 1"
proof (cases "quiet now h x q")
  case True
  from tick_quiet_all [OF this] show ?thesis by simp
next
  case False
  then have "MAX_WAITING_TIME \<le> now - history_read h x" "\<exists>p\<in>set q. dst_ip p = x \<and> is_marker p"
    by (auto simp: quiet_def)
  from tick_fires [OF this] show ?thesis by simp
qed

lemma opcodes_distinct: "OPCODE_REQUEST \<noteq> OPCODE_REPLY" "OPCODE_REPLY \<noteq> OPCODE_REQUEST"
  by (simp_all add: OPCODE_REQUEST_def OPCODE_REPLY_def)

lemma reply_loop_eq:
  "reply_loop x mac q ready temp_q =
     (ready @ map (\<lambda>p. (waiting_frame p)\<lparr>frame_dst := mac\<rparr>)
                (filter (\<lambda>p. dst_ip p = x \<and> frame_type (waiting_frame p) = TYPE_IPv4) q),
      temp_q @ filter (\<lambda>p. dst_ip p \<noteq> x) q)"
  by (induction q arbitrary: ready temp_q) auto

lemma handle_arp_reply:
  assumes "opcode m = OPCODE_REPLY" "target_ip_address m = ip_address ni"
  shows "handle_arp c t m ni =
     ni\<lparr>ARP_table := (ARP_table ni)(sender_ip_address m \<mapsto>
            \<lparr>MAC_addr = sender_ethernet_address m, caching_time = t\<rparr>),
        ready2_sent_q := ready2_sent_q ni @
           map (\<lambda>p. (waiting_frame p)\<lparr>frame_dst := sender_ethernet_address m\<rparr>)
             (filter (\<lambda>p. dst_ip p = sender_ip_address m \<and> frame_type (waiting_frame p) = TYPE_IPv4)
                (waiting_q ni)),
        waiting_q := filter (\<lambda>p. dst_ip p \<noteq> sender_ip_address m) (waiting_q ni)\<rparr>"
  using assms opcodes_distinct by (simp add: handle_arp_def Let_def reply_loop_eq)

lemma recv_frame_arp:
  assumes "frame_type frame = TYPE_ARP"
    and "frame_dst frame = ethernet_address ni \<or> frame_dst frame = ETHERNET_BROADCAST"
    and "parse_arp c (frame_payload frame) = Some m"
  shows "recv_frame c t frame ni = (None, handle_arp c t m ni)"
  using assms types_distinct by (auto simp: recv_frame_def)


subsection \<open>Evaluating the concrete inputs\<close>

lemmas example_defs = iface_A_def new_interface_def example_codec_def ip_B_def ip_C_def mac_B_def
  send_datagram_def ARP_request_frame_def ether_frame_no_MAC_def request_waiting_packet_def
  packet_no_MAC_def make_ethernet_frame_def make_arp_message_def Let_def
  reply_from_B_def request_from_B_def MAX_WAITING_TIME_def MAX_CACHE_TIME_def SIZE_MAX_def
  TYPE_IPv4_def TYPE_ARP_def OPCODE_REQUEST_def OPCODE_REPLY_def ETHERNET_BROADCAST_def

lemmas tick_eval = tick_def tick_loop.simps history_read_def history_touch_def expire_entries_def

lemma queued_state_queues:
  "waiting_q (snd queued_state) =
     [packet_no_MAC example_codec iface_A 0 1 ip_B,
      packet_no_MAC example_codec iface_A 0 2 ip_C,
      request_waiting_packet example_codec iface_A ip_B,
      packet_no_MAC example_codec iface_A 0 3 ip_B,
      request_waiting_packet example_codec iface_A ip_B,
      packet_no_MAC example_codec iface_A 0 4 ip_B]"
  "ready2_sent_q (snd queued_state) =
     [ARP_request_frame example_codec iface_A ip_B, ARP_request_frame example_codec iface_A ip_C]"
  "ethernet_address (snd queued_state) = 0xAAAAAAAAAAAA"
  "ip_address (snd queued_state) = 0x0A000001"
  by (simp_all add: queued_state_def example_defs)

lemma marker_state_eq:
  "fst marker_state = 0"
  "waiting_q (snd marker_state) =
     [packet_no_MAC example_codec iface_A 0 1 ip_B,
      request_waiting_packet example_codec iface_A ip_B,
      packet_no_MAC example_codec iface_A 0 2 ip_B]"
  "ready2_sent_q (snd marker_state) = [ARP_request_frame example_codec iface_A ip_B]"
  "request_history (snd marker_state) ip_B = Some 0"
  "ARP_table (snd marker_state) ip_B = None"
  by (simp_all add: marker_state_def example_defs)

lemma wrap_state_eq:
  "fst wrap_state = SIZE_MAX - 10"
  "waiting_q (snd wrap_state) =
     [packet_no_MAC example_codec iface_A (SIZE_MAX - 10) 1 ip_B,
      request_waiting_packet example_codec iface_A ip_B,
      packet_no_MAC example_codec iface_A (SIZE_MAX - 10) 2 ip_B]"
  "request_history (snd wrap_state) ip_B = Some (SIZE_MAX - 10)"
  by (simp_all add: wrap_state_def example_defs tick_eval)


subsection \<open>Single operations\<close>

lemma marker_is_marker:
  "is_marker (request_waiting_packet c ni x)" "time (request_waiting_packet c ni x) = SIZE_MAX"
  "dst_ip (request_waiting_packet c ni x) = x"
  "waiting_frame (request_waiting_packet c ni x) = ARP_request_frame c ni x"
  by (simp_all add: is_marker_def request_waiting_packet_def ARP_request_frame_def
      make_ethernet_frame_def)

lemma size_max_diff: "(now :: size_t) - SIZE_MAX = now + 1"
  by (simp add: SIZE_MAX_def)

lemma clock_succ_large:
  assumes "4999 \<le> (now :: size_t)" and "now \<noteq> SIZE_MAX"
  shows "\<not> now + 1 < MAX_WAITING_TIME"
proof -
  from assms(2) have "now \<noteq> - 1" by (simp add: SIZE_MAX_def)
  then have "unat (now + 1) = unat now + 1"
    by (metis add.commute unatSuc Suc_eq_plus1 plus_1_eq_Suc add.right_neutral add_diff_cancel_left' diff_0 )
  moreover from assms(1) have "4999 \<le> unat now" by (simp add: word_le_nat_alt)
  ultimately show ?thesis by (simp add: MAX_WAITING_TIME_def word_less_nat_alt)
qed

lemma send_datagram_young:
  assumes "ARP_table ni x = None" and "request_history ni x = Some v" and "t - v < MAX_WAITING_TIME"
  shows "send_datagram c t d x ni =
     ni\<lparr>waiting_q := waiting_q ni @ [request_waiting_packet c ni x, packet_no_MAC c ni t d x]\<rparr>"
  using assms by (simp add: send_datagram_def Let_def)

lemma send_datagram_old:
  assumes "ARP_table ni x = None"
    and "request_history ni x = None \<or> (\<exists>v. request_history ni x = Some v \<and> \<not> t - v < MAX_WAITING_TIME)"
  shows "send_datagram c t d x ni =
     ni\<lparr>request_history := (request_history ni)(x \<mapsto> t),
        ready2_sent_q := ready2_sent_q ni @ [ARP_request_frame c ni x],
        waiting_q := waiting_q ni @ [packet_no_MAC c ni t d x]\<rparr>"
  using assms by (auto simp add: send_datagram_def Let_def)

lemma tick_keeps_markers:
  assumes "request_history ni x = Some v" and "(t + ms) - v < MAX_WAITING_TIME"
  shows "filter (\<lambda>p. dst_ip p = x \<and> is_marker p \<and> time p = SIZE_MAX) (waiting_q (snd (tick t ms ni))) =
     (if (t + ms) + 1 < MAX_WAITING_TIME
      then filter (\<lambda>p. dst_ip p = x \<and> is_marker p \<and> time p = SIZE_MAX) (waiting_q ni) else [])"
proof -
  let ?now = "t + ms"
  let ?Q = "\<lambda>p :: 'a Waiting_Packet. is_marker p \<and> time p = SIZE_MAX"
  from assms have "quiet ?now (request_history ni) x (waiting_q ni)"
    by (simp add: quiet_def history_read_def)
  from tick_quiet_all [OF this]
  have k: "filter (\<lambda>p. dst_ip p = x) (tick_kept ?now (waiting_q ni) (request_history ni)) =
         filter (\<lambda>p. dst_ip p = x \<and> retained ?now p) (waiting_q ni)" by simp
  have "filter (\<lambda>p. dst_ip p = x \<and> ?Q p) (tick_kept ?now (waiting_q ni) (request_history ni)) =
        filter ?Q (filter (\<lambda>p. dst_ip p = x) (tick_kept ?now (waiting_q ni) (request_history ni)))"
    by (simp add: conj_commute)
  also have "\<dots> = filter (\<lambda>p. dst_ip p = x \<and> ?Q p \<and> retained ?now p) (waiting_q ni)"
    unfolding k by (auto intro: filter_cong)
  also have "\<dots> = filter (\<lambda>p. dst_ip p = x \<and> ?Q p \<and> ?now + 1 < MAX_WAITING_TIME) (waiting_q ni)"
    by (rule filter_cong) (auto simp: retained_def is_marker_def types_distinct size_max_diff)
  also have "\<dots> = (if ?now + 1 < MAX_WAITING_TIME
      then filter (\<lambda>p. dst_ip p = x \<and> ?Q p) (waiting_q ni) else [])"
    by simp
  finally show ?thesis by (simp add: tick_views)
qed

lemma send_datagram_no_items:
  assumes "y \<noteq> x \<or> ARP_table ni x \<noteq> None" and "\<forall>p\<in>set (waiting_q ni). dst_ip p \<noteq> x"
  shows "\<forall>p\<in>set (waiting_q (send_datagram c t d y ni)). dst_ip p \<noteq> x"
  using assms
  by (auto simp: send_datagram_def Let_def request_waiting_packet_def packet_no_MAC_def
      split: option.splits if_splits)

lemma recv_frame_waiting_subset:
  "set (waiting_q (snd (recv_frame c t frame ni))) \<subseteq> set (waiting_q ni)"
  by (auto simp: recv_frame_def handle_arp_def Let_def reply_loop_eq split: option.splits)

lemma tick_waiting_subset: "set (waiting_q (snd (tick t ms ni))) \<subseteq> set (waiting_q ni)"
  using tick_kept_subset by (simp add: tick_views)

lemma maybe_send_waiting: "waiting_q (snd (maybe_send ni)) = waiting_q ni"
  by (simp add: maybe_send_def split: list.split)

lemma run_no_items:
  assumes "sends_find c x calls s" and "\<forall>p\<in>set (waiting_q (snd s)). dst_ip p \<noteq> x"
  shows "\<forall>p\<in>set (waiting_q (snd (run c calls s))). dst_ip p \<noteq> x"
  using assms
proof (induction calls arbitrary: s)
  case Nil
  then show ?case by simp
next
  case (Cons call calls)
  obtain t ni where s: "s = (t, ni)" by (cases s)
  have "sends_find c x calls (step c call s) \<and>
        (\<forall>p\<in>set (waiting_q (snd (step c call s))). dst_ip p \<noteq> x)"
  proof (cases call)
    case (Send d y)
    with Cons.prems s show ?thesis
      using send_datagram_no_items [of y x ni c t d] by auto
  next
    case (Recv frame)
    with Cons.prems s show ?thesis
      using recv_frame_waiting_subset [of c t frame ni] by auto
  next
    case (Tick ms)
    with Cons.prems s show ?thesis
      using tick_waiting_subset [of t ms ni] by auto
  next
    case MaybeSend
    with Cons.prems s show ?thesis by (simp add: maybe_send_waiting)
  qed
  with Cons.IH [of "step c call s"] show ?case by simp
qed

lemma tick_appends_queued:
  "\<exists>es. set es \<subseteq> set (waiting_q ni) \<and> (\<forall>p\<in>set es. is_marker p) \<and>
        ready2_sent_q (snd (tick t ms ni)) = ready2_sent_q ni @ map waiting_frame es"
  using tick_sent_subset [of "t + ms" "waiting_q ni" "request_history ni"]
  by (intro exI [of _ "tick_sent (t + ms) (waiting_q ni) (request_history ni)"])
     (auto simp: tick_views)

lemma handle_arp_table:
  "ARP_table (handle_arp c t m ni) =
     (ARP_table ni)(sender_ip_address m \<mapsto>
        \<lparr>MAC_addr = sender_ethernet_address m, caching_time = t\<rparr>)"
  by (simp add: handle_arp_def Let_def reply_loop_eq)

lemma reply_state_eq:
  "ARP_table (snd (recv_frame example_codec 0 reply_from_B (snd queued_state))) ip_B =
     Some \<lparr>MAC_addr = mac_B, caching_time = 0\<rparr>"
proof -
  have "recv_frame example_codec 0 reply_from_B (snd queued_state) =
      (None, handle_arp example_codec 0
         (make_arp_message mac_B ip_B 0xAAAAAAAAAAAA 0x0A000001 OPCODE_REPLY) (snd queued_state))"
    by (rule recv_frame_arp)
       (simp_all add: reply_from_B_def make_ethernet_frame_def example_codec_def queued_state_queues)
  then show ?thesis by (simp add: handle_arp_table make_arp_message_def)
qed

lemma tick_appended:
  "appended ni (snd (tick t ms ni)) =
     map waiting_frame (tick_sent (t + ms) (waiting_q ni) (request_history ni))"
  by (simp add: appended_def tick_views)

lemma tick_fires_frame:
  assumes "\<exists>p\<in>set (waiting_q ni). dst_ip p = x \<and> is_marker p"
    and "request_history ni x = Some v" and "MAX_WAITING_TIME \<le> (t + ms) - v"
  shows "request_history (snd (tick t ms ni)) x = Some (t + ms)"
    and "\<exists>p\<in>set (waiting_q ni). dst_ip p = x \<and> is_marker p
           \<and> waiting_frame p \<in> set (appended ni (snd (tick t ms ni)))"
proof -
  let ?f = "filter (\<lambda>p. dst_ip p = x \<and> is_marker p) (waiting_q ni)"
  from assms(2,3) have age: "MAX_WAITING_TIME \<le> (t + ms) - history_read (request_history ni) x"
    by (simp add: history_read_def)
  note f = tick_fires [OF age assms(1)]
  from f show "request_history (snd (tick t ms ni)) x = Some (t + ms)"
    by (simp add: tick_views)
  from assms(1) have ne: "?f \<noteq> []" by (auto simp: filter_empty_conv)
  then have "hd ?f \<in> set ?f" by (rule hd_in_set)
  then have h: "hd ?f \<in> set (waiting_q ni)" "dst_ip (hd ?f) = x" "is_marker (hd ?f)" by auto
  from f have "hd ?f \<in> set (filter (\<lambda>p. dst_ip p = x)
      (tick_sent (t + ms) (waiting_q ni) (request_history ni)))" by simp
  then have "waiting_frame (hd ?f) \<in> set (appended ni (snd (tick t ms ni)))"
    by (simp add: tick_appended)
  with h show "\<exists>p\<in>set (waiting_q ni). dst_ip p = x \<and> is_marker p
           \<and> waiting_frame p \<in> set (appended ni (snd (tick t ms ni)))" by blast
qed

lemma tick_silent_without_marker:
  assumes "\<forall>p\<in>set (waiting_q ni). dst_ip p = x \<longrightarrow> \<not> is_marker p"
  shows "\<forall>v. request_history ni x = Some v \<longrightarrow> request_history (snd (tick t ms ni)) x = Some v"
    and "\<exists>es. set es \<subseteq> set (waiting_q ni) \<and> (\<forall>p\<in>set es. dst_ip p \<noteq> x) \<and>
           ready2_sent_q (snd (tick t ms ni)) = ready2_sent_q ni @ map waiting_frame es"
proof -
  from assms have q: "quiet (t + ms) (request_history ni) x (waiting_q ni)"
    by (simp add: quiet_def)
  note a = tick_quiet_all [OF q]
  from a show "\<forall>v. request_history ni x = Some v \<longrightarrow> request_history (snd (tick t ms ni)) x = Some v"
    by (simp add: tick_views)
  let ?es = "tick_sent (t + ms) (waiting_q ni) (request_history ni)"
  from a have "filter (\<lambda>p. dst_ip p = x) ?es = []" by simp
  then have "\<forall>p\<in>set ?es. dst_ip p \<noteq> x" by (simp add: filter_empty_conv)
  moreover have "set ?es \<subseteq> set (waiting_q ni)" using tick_sent_subset [of "t + ms" "waiting_q ni"] by blast
  moreover have "ready2_sent_q (snd (tick t ms ni)) = ready2_sent_q ni @ map waiting_frame ?es"
    by (simp add: tick_views)
  ultimately show "\<exists>es. set es \<subseteq> set (waiting_q ni) \<and> (\<forall>p\<in>set es. dst_ip p \<noteq> x) \<and>
           ready2_sent_q (snd (tick t ms ni)) = ready2_sent_q ni @ map waiting_frame es"
    by blast
qed

lemma tick_keeps_datagrams:
  "filter (\<lambda>p. frame_type (waiting_frame p) = TYPE_IPv4) (waiting_q (snd (tick t ms ni))) =
   filter (\<lambda>p. frame_type (waiting_frame p) = TYPE_IPv4) (waiting_q ni)"
  by (simp add: tick_views tick_kept_datagrams)

lemma pending_state_eq:
  "fst pending_state = 6000"
  "waiting_q (snd pending_state) = [packet_no_MAC example_codec iface_A 0 1 ip_B]"
  "ready2_sent_q (snd pending_state) = [ARP_request_frame example_codec iface_A ip_B]"
  "request_history (snd pending_state) ip_B = Some 0"
  by (simp_all add: pending_state_def example_defs tick_eval)


subsection \<open>The ARP table along a sequence of calls\<close>

lemma step_unfold:
  "step c (Send d y) s = (fst s, send_datagram c (fst s) d y (snd s))"
  "step c (Recv frame) s = (fst s, snd (recv_frame c (fst s) frame (snd s)))"
  "step c (Tick ms) s = tick (fst s) ms (snd s)"
  "step c MaybeSend s = (fst s, snd (maybe_send (snd s)))"
  by (cases s; simp)+

lemma send_datagram_table [simp]: "ARP_table (send_datagram c t d y ni) = ARP_table ni"
  by (simp add: send_datagram_def Let_def split: option.split)

lemma maybe_send_table [simp]: "ARP_table (snd (maybe_send ni)) = ARP_table ni"
  by (simp add: maybe_send_def split: list.split)

lemma tick_table: "ARP_table (snd (tick t ms ni)) = expire_entries (t + ms) (ARP_table ni)"
  by (simp add: tick_views)

lemma tick_clock [simp]: "fst (tick t ms ni) = t + ms"
  by (simp add: tick_views)




lemma send_datagram_unresolved:
  assumes "ARP_table ni x = None"
  shows "last (waiting_q (send_datagram c t d x ni)) = packet_no_MAC c ni t d x"
    and "appended ni (send_datagram c t d x ni) =
          (if \<exists>v. request_history ni x = Some v \<and> t - v < MAX_WAITING_TIME then []
           else [ARP_request_frame c ni x])"
  using assms by (auto simp: send_datagram_def Let_def appended_def split: option.split)




lemma send_datagram_history_other:
  "ARP_table ni y \<noteq> None \<Longrightarrow> request_history (send_datagram c t d y ni) = request_history ni"
  by (auto simp: send_datagram_def)


lemma relearned_state_eq:
  "fst resolved_state = 0"
  "ARP_table (snd resolved_state) ip_B = Some \<lparr>MAC_addr = mac_B, caching_time = 0\<rparr>"
  "waiting_q (snd resolved_state) = []"
  "fst relearned_state = 30001"
  "ARP_table (snd relearned_state) ip_B = Some \<lparr>MAC_addr = mac_B, caching_time = 30001\<rparr>"
  "request_history (snd relearned_state) ip_B = Some 30001"
  "waiting_q (snd relearned_state) =
     [packet_no_MAC example_codec iface_A 30001 5 ip_B,
      request_waiting_packet example_codec iface_A ip_B,
      packet_no_MAC example_codec iface_A 30001 6 ip_B]"
  by (simp_all add: relearned_state_def resolved_state_def marker_state_def example_defs tick_eval
      recv_frame_def handle_arp_def)


subsection \<open>Two interfaces\<close>

lemma iface_R_tick: "tick t ms iface_R = (t + ms, iface_R)"
  by (simp add: iface_R_def new_interface_def tick_eval)

lemma send_first_A:
  "send_datagram example_codec t d ip_B iface_A =
     iface_A\<lparr>request_history := [ip_B \<mapsto> t],
             ready2_sent_q := [ARP_request_frame example_codec iface_A ip_B],
             waiting_q := [packet_no_MAC example_codec iface_A t d ip_B]\<rparr>"
  by (simp add: send_datagram_def iface_A_def new_interface_def Let_def
      ARP_request_frame_def packet_no_MAC_def ether_frame_no_MAC_def)


subsection \<open>ARP requests along a sequence of sends and ticks\<close>

lemma send_datagram_addresses [simp]:
  "ethernet_address (send_datagram c t d y ni) = ethernet_address ni"
  "ip_address (send_datagram c t d y ni) = ip_address ni"
  by (simp_all add: send_datagram_def Let_def split: option.split)

lemma tick_addresses [simp]:
  "ethernet_address (snd (tick t ms ni)) = ethernet_address ni"
  "ip_address (snd (tick t ms ni)) = ip_address ni"
  by (simp_all add: tick_views)

lemma ARP_request_frame_cong:
  "ethernet_address ni' = ethernet_address ni \<Longrightarrow> ip_address ni' = ip_address ni \<Longrightarrow>
   ARP_request_frame c ni' x = ARP_request_frame c ni x"
  by (simp add: ARP_request_frame_def)

lemma ARP_request_frame_inj:
  assumes "inj (serialize_arp c)"
  shows "ARP_request_frame c ni y = ARP_request_frame c ni x \<longleftrightarrow> y = x"
  using assms
  by (auto simp: ARP_request_frame_def make_ethernet_frame_def make_arp_message_def dest!: injD)

lemma ARP_request_frame_type [simp]: "frame_type (ARP_request_frame c ni x) = TYPE_ARP"
  by (simp add: ARP_request_frame_def make_ethernet_frame_def)

lemma packet_no_MAC_not_marker [simp]: "\<not> is_marker (packet_no_MAC c ni t d y)"
  by (simp add: is_marker_def packet_no_MAC_def ether_frame_no_MAC_def make_ethernet_frame_def
      types_distinct)

lemma send_datagram_wellformed:
  assumes "markers_wellformed c ni"
  shows "markers_wellformed c (send_datagram c t d y ni)"
proof -
  have f: "ARP_request_frame c (send_datagram c t d y ni) z = ARP_request_frame c ni z" for z
    by (rule ARP_request_frame_cong) simp_all
  show ?thesis
    using assms unfolding markers_wellformed_def f
    by (auto simp: send_datagram_def Let_def marker_is_marker split: option.splits if_splits)
qed

lemma tick_wellformed:
  assumes "markers_wellformed c ni"
  shows "markers_wellformed c (snd (tick t ms ni))"
proof -
  have f: "ARP_request_frame c (snd (tick t ms ni)) z = ARP_request_frame c ni z" for z
    by (rule ARP_request_frame_cong) simp_all
  show ?thesis
    using assms tick_waiting_subset [of t ms ni] unfolding markers_wellformed_def f by blast
qed

lemma send_datagram_requests:
  assumes "inj (serialize_arp c)"
  shows "count_list (appended ni (send_datagram c t d y ni)) (ARP_request_frame c ni x) =
     (if y = x \<and> ARP_table ni x = None
         \<and> \<not> (\<exists>v. request_history ni x = Some v \<and> t - v < MAX_WAITING_TIME)
      then 1 else 0)"
proof (cases "ARP_table ni y")
  case (Some e)
  then have "appended ni (send_datagram c t d y ni) =
      [make_ethernet_frame (MAC_addr e) (ethernet_address ni) TYPE_IPv4 (serialize_dgram c d)]"
    by (simp add: send_datagram_def appended_def)
  moreover have "make_ethernet_frame (MAC_addr e) (ethernet_address ni) TYPE_IPv4 (serialize_dgram c d)
      \<noteq> ARP_request_frame c ni x"
    by (simp add: ARP_request_frame_def make_ethernet_frame_def types_distinct)
  ultimately show ?thesis using Some by auto
next
  case None
  from send_datagram_unresolved(2) [OF None, of c t d]
  show ?thesis using None ARP_request_frame_inj [OF assms, of ni y x] by auto
qed

lemma send_datagram_history:
  "request_history (send_datagram c t d y ni) x =
     (if y = x \<and> ARP_table ni x = None
         \<and> \<not> (\<exists>v. request_history ni x = Some v \<and> t - v < MAX_WAITING_TIME)
      then Some t else request_history ni x)"
  by (auto simp: send_datagram_def Let_def split: option.splits)

lemma count_list_map_filter: "count_list (map f xs) y = length (filter (\<lambda>a. f a = y) xs)"
  by (induction xs) auto

lemma tick_requests_count:
  assumes "inj (serialize_arp c)" and "markers_wellformed c ni"
  shows "count_list (appended ni (snd (tick t ms ni))) (ARP_request_frame c ni x) =
     length (filter (\<lambda>p. dst_ip p = x) (tick_sent (t + ms) (waiting_q ni) (request_history ni)))"
proof -
  let ?es = "tick_sent (t + ms) (waiting_q ni) (request_history ni)"
  have "waiting_frame p = ARP_request_frame c ni x \<longleftrightarrow> dst_ip p = x" if "p \<in> set ?es" for p
  proof -
    from that tick_sent_subset [of "t + ms" "waiting_q ni" "request_history ni"]
    have "p \<in> set (waiting_q ni)" "is_marker p" by auto
    with assms(2) have "waiting_frame p = ARP_request_frame c ni (dst_ip p)"
      by (simp add: markers_wellformed_def)
    then show ?thesis using ARP_request_frame_inj [OF assms(1), of ni "dst_ip p" x] by simp
  qed
  then have "filter (\<lambda>p. waiting_frame p = ARP_request_frame c ni x) ?es =
      filter (\<lambda>p. dst_ip p = x) ?es"
    by (intro filter_cong) auto
  then show ?thesis by (simp add: tick_appended count_list_map_filter)
qed

lemma of_nat_age:
  fixes t v ms :: size_t
  assumes "t - v = of_nat d"
  shows "(t + ms) - v = of_nat (d + unat ms)"
proof -
  have "(t + ms) - v = (t - v) + ms" by simp
  also have "\<dots> = of_nat d + of_nat (unat ms)" using assms by simp
  finally show ?thesis by simp
qed

lemma unat_of_nat_le: "unat (of_nat d :: size_t) \<le> d"
  by (simp add: unat_of_nat)

lemma old_enough:
  fixes a :: size_t
  assumes "MAX_WAITING_TIME \<le> a" and "a = of_nat d"
  shows "5000 \<le> d"
proof -
  from assms(1) have "5000 \<le> unat a" by (simp add: MAX_WAITING_TIME_def word_le_nat_alt)
  with assms(2) unat_of_nat_le [of d] show ?thesis by simp
qed

lemma send_step_link:
  assumes inj: "inj (serialize_arp c)"
    and link: "record_follows prev e t (request_history ni) x"
  shows "count_list (appended ni (send_datagram c t d y ni)) (ARP_request_frame c ni x) = 0
           \<and> record_follows prev e t (request_history (send_datagram c t d y ni)) x
       \<or> count_list (appended ni (send_datagram c t d y ni)) (ARP_request_frame c ni x) = 1
           \<and> record_follows (Some e) e t (request_history (send_datagram c t d y ni)) x
           \<and> (\<forall>b. prev = Some b \<longrightarrow> b + 5000 \<le> e)"
proof (cases "y = x \<and> ARP_table ni x = None
         \<and> \<not> (\<exists>v. request_history ni x = Some v \<and> t - v < MAX_WAITING_TIME)")
  case False
  then have "count_list (appended ni (send_datagram c t d y ni)) (ARP_request_frame c ni x) = 0"
    and "request_history (send_datagram c t d y ni) x = request_history ni x"
    by (auto simp add: send_datagram_requests [OF inj] send_datagram_history)
  with link show ?thesis by (auto simp: record_follows_def split: option.splits)
next
  case True
  then have n: "count_list (appended ni (send_datagram c t d y ni)) (ARP_request_frame c ni x) = 1"
    and h: "request_history (send_datagram c t d y ni) x = Some t"
    by (auto simp add: send_datagram_requests [OF inj] send_datagram_history)
  have l: "record_follows (Some e) e t (request_history (send_datagram c t d y ni)) x"
    using h by (simp add: record_follows_def)
  have g: "\<forall>b. prev = Some b \<longrightarrow> b + 5000 \<le> e"
  proof (cases prev)
    case None
    then show ?thesis by simp
  next
    case (Some b)
    with link obtain v k where b: "b \<le> e" and v: "request_history ni x = Some v"
      and k: "k \<le> e - b" "t - v = of_nat k"
      by (auto simp: record_follows_def)
    from True v have "MAX_WAITING_TIME \<le> t - v" by auto
    from old_enough [OF this k(2)] k(1) b Some show ?thesis by simp
  qed
  from n l g show ?thesis by blast
qed

lemma tick_step_link:
  assumes inj: "inj (serialize_arp c)" and wf: "markers_wellformed c ni"
    and link: "record_follows prev e t (request_history ni) x"
  shows "count_list (appended ni (snd (tick t ms ni))) (ARP_request_frame c ni x) = 0
           \<and> record_follows prev (e + unat ms) (t + ms) (request_history (snd (tick t ms ni))) x
       \<or> count_list (appended ni (snd (tick t ms ni))) (ARP_request_frame c ni x) = 1
           \<and> record_follows (Some (e + unat ms)) (e + unat ms) (t + ms)
                (request_history (snd (tick t ms ni))) x
           \<and> (\<forall>b. prev = Some b \<longrightarrow> b + 5000 \<le> e + unat ms)"
proof (cases "quiet (t + ms) (request_history ni) x (waiting_q ni)")
  case True
  note q = tick_quiet_all [OF True]
  from q have n: "count_list (appended ni (snd (tick t ms ni))) (ARP_request_frame c ni x) = 0"
    by (simp add: tick_requests_count [OF inj wf])
  have l: "record_follows prev (e + unat ms) (t + ms) (request_history (snd (tick t ms ni))) x"
  proof (cases prev)
    case None
    then show ?thesis by (simp add: record_follows_def)
  next
    case (Some b)
    with link obtain v k where b: "b \<le> e" and v: "request_history ni x = Some v"
      and k: "k \<le> e - b" "t - v = of_nat k"
      by (auto simp: record_follows_def)
    from q v have "request_history (snd (tick t ms ni)) x = Some v" by (simp add: tick_views)
    moreover from k(1) b have "k + unat ms \<le> e + unat ms - b" by simp
    moreover note of_nat_age [OF k(2), of ms]
    ultimately show ?thesis using Some b by (auto simp: record_follows_def)
  qed
  from n l show ?thesis by blast
next
  case False
  then have age: "MAX_WAITING_TIME \<le> (t + ms) - history_read (request_history ni) x"
    and m: "\<exists>p\<in>set (waiting_q ni). dst_ip p = x \<and> is_marker p"
    by (auto simp: quiet_def)
  note f = tick_fires [OF age m]
  from f have n: "count_list (appended ni (snd (tick t ms ni))) (ARP_request_frame c ni x) = 1"
    by (simp add: tick_requests_count [OF inj wf])
  from f have "request_history (snd (tick t ms ni)) x = Some (t + ms)" by (simp add: tick_views)
  then have l: "record_follows (Some (e + unat ms)) (e + unat ms) (t + ms)
                (request_history (snd (tick t ms ni))) x"
    by (simp add: record_follows_def)
  have g: "\<forall>b. prev = Some b \<longrightarrow> b + 5000 \<le> e + unat ms"
  proof (cases prev)
    case None
    then show ?thesis by simp
  next
    case (Some b)
    with link obtain v k where b: "b \<le> e" and v: "request_history ni x = Some v"
      and k: "k \<le> e - b" "t - v = of_nat k"
      by (auto simp: record_follows_def)
    from age v have "MAX_WAITING_TIME \<le> (t + ms) - v" by (simp add: history_read_def)
    from old_enough [OF this of_nat_age [OF k(2), of ms]] k(1) b Some show ?thesis by simp
  qed
  from n l g show ?thesis by blast
qed

lemma gaps_ok_all: "gaps_ok (Some a) ts \<Longrightarrow> \<forall>k<length ts. a + 5000 \<le> ts ! k"
proof (induction ts arbitrary: a)
  case Nil
  then show ?case by simp
next
  case (Cons b bs)
  then have ab: "a + 5000 \<le> b" and "gaps_ok (Some b) bs" by simp_all
  from Cons.IH [OF this(2)] ab show ?case by (auto simp: nth_Cons split: nat.split)
qed

lemma gaps_ok_pairs:
  "gaps_ok prev ts \<Longrightarrow> \<forall>i j. i < j \<and> j < length ts \<longrightarrow> ts ! i + 5000 \<le> ts ! j"
proof (induction ts arbitrary: prev)
  case Nil
  then show ?case by simp
next
  case (Cons b bs)
  then have g: "gaps_ok (Some b) bs" by simp
  note h = gaps_ok_all [OF g] and ih = Cons.IH [OF g]
  show ?case
  proof (intro allI impI)
    fix i j
    assume ij: "i < j \<and> j < length (b # bs)"
    then obtain j' where j: "j = Suc j'" by (cases j) auto
    show "(b # bs) ! i + 5000 \<le> (b # bs) ! j"
    proof (cases i)
      case 0
      with h ij j show ?thesis by simp
    next
      case (Suc i')
      with ih ij j show ?thesis by simp
    qed
  qed
qed

lemma run_gaps:
  assumes "inj (serialize_arp c)" and "markers_wellformed c (snd s)"
    and "list_all send_or_tick calls"
    and "record_follows prev e (fst s) (request_history (snd s)) x"
  shows "gaps_ok prev (request_times c x e calls s)"
  using assms(2-)
proof (induction calls arbitrary: s prev e)
  case Nil
  show ?case by simp
next
  case (Cons call calls)
  note inj = assms(1)
  from Cons.prems have rest: "list_all send_or_tick calls" and st: "send_or_tick call" by simp_all
  let ?s' = "step c call s"
  let ?e' = "e + elapsed [call]"
  let ?n = "count_list (appended (snd s) (snd ?s')) (ARP_request_frame c (snd s) x)"
  have wf': "markers_wellformed c (snd ?s')"
    and alt: "?n = 0 \<and> record_follows prev ?e' (fst ?s') (request_history (snd ?s')) x
       \<or> ?n = 1 \<and> record_follows (Some ?e') ?e' (fst ?s') (request_history (snd ?s')) x
           \<and> (\<forall>b. prev = Some b \<longrightarrow> b + 5000 \<le> ?e')"
  proof -
    show "markers_wellformed c (snd ?s')"
      using st Cons.prems(1) by (cases call) (simp_all add: step_unfold send_datagram_wellformed tick_wellformed)
    show "?n = 0 \<and> record_follows prev ?e' (fst ?s') (request_history (snd ?s')) x
       \<or> ?n = 1 \<and> record_follows (Some ?e') ?e' (fst ?s') (request_history (snd ?s')) x
           \<and> (\<forall>b. prev = Some b \<longrightarrow> b + 5000 \<le> ?e')"
    proof (cases call)
      case (Send d y)
      from send_step_link [OF inj Cons.prems(3), of d y] show ?thesis
        by (simp add: Send step_unfold)
    next
      case (Tick ms)
      from tick_step_link [OF inj Cons.prems(1) Cons.prems(3), of ms] show ?thesis
        by (simp add: Tick step_unfold)
    next
      case (Recv f)
      with st show ?thesis by simp
    next
      case MaybeSend
      with st show ?thesis by simp
    qed
  qed
  from alt show ?case
  proof
    assume a: "?n = 0 \<and> record_follows prev ?e' (fst ?s') (request_history (snd ?s')) x"
    from Cons.IH [OF wf' rest conjunct2 [OF a]] a show ?thesis by simp
  next
    assume a: "?n = 1 \<and> record_follows (Some ?e') ?e' (fst ?s') (request_history (snd ?s')) x
           \<and> (\<forall>b. prev = Some b \<longrightarrow> b + 5000 \<le> ?e')"
    then have l: "record_follows (Some ?e') ?e' (fst ?s') (request_history (snd ?s')) x" by blast
    from Cons.IH [OF wf' rest l] a show ?thesis by (simp split: option.split)
  qed
qed


lemma recv_frame_addresses [simp]:
  "ethernet_address (snd (recv_frame c t f ni)) = ethernet_address ni"
  "ip_address (snd (recv_frame c t f ni)) = ip_address ni"
  by (simp_all add: recv_frame_def handle_arp_def Let_def reply_loop_eq split: option.split)

lemma maybe_send_addresses [simp]:
  "ethernet_address (snd (maybe_send ni)) = ethernet_address ni"
  "ip_address (snd (maybe_send ni)) = ip_address ni"
  by (simp_all add: maybe_send_def split: list.split)

lemma step_wellformed:
  assumes "markers_wellformed c (snd s)"
  shows "markers_wellformed c (snd (step c call s))"
proof (cases call)
  case (Send d y)
  with assms show ?thesis by (simp add: step_unfold send_datagram_wellformed)
next
  case (Tick ms)
  with assms show ?thesis by (simp add: step_unfold tick_wellformed)
next
  case (Recv f)
  have fr: "ARP_request_frame c (snd (recv_frame c (fst s) f (snd s))) z =
      ARP_request_frame c (snd s) z" for z
    by (rule ARP_request_frame_cong) simp_all
  from assms recv_frame_waiting_subset [of c "fst s" f "snd s"] show ?thesis
    unfolding Recv step_unfold markers_wellformed_def snd_conv fr by blast
next
  case MaybeSend
  have fr: "ARP_request_frame c (snd (maybe_send (snd s))) z = ARP_request_frame c (snd s) z" for z
    by (rule ARP_request_frame_cong) simp_all
  from assms show ?thesis
    unfolding MaybeSend step_unfold markers_wellformed_def snd_conv fr maybe_send_waiting by blast
qed

lemma run_wellformed:
  "markers_wellformed c (snd s) \<Longrightarrow> markers_wellformed c (snd (run c calls s))"
  by (induction calls arbitrary: s) (simp_all add: step_wellformed)

lemma new_interface_wellformed: "markers_wellformed c (new_interface ea ip)"
  by (simp add: markers_wellformed_def new_interface_def)

lemma example_requests:
  "request_times example_codec ip_B 0 [Send 5 ip_B, Send 6 ip_B, Tick 5000] (0, iface_A) = [0, 5000]"
  by (simp add: example_defs tick_eval appended_def)


lemma example_codec_inj: "inj (serialize_arp example_codec)"
  by (simp add: example_codec_def inj_def)


subsection \<open>An ARP reply flushes the waiting queue\<close>

text \<open>
  C2. Let the frame be an ARP frame addressed to this interface or to the broadcast
  address, whose payload parses as a reply with this interface's IP as target. Then
  \<open>recv_frame\<close> leaves in the waiting queue exactly the elements for other addresses
  than the sender's, in their order, and appends to the ready queue the frames of the
  IPv4 elements for the sender's address, in their order, each with the sender's link
  address as destination.
\<close>

theorem arp_reply_flushes_datagrams_in_order:
  assumes "frame_type frame = TYPE_ARP"
    and "frame_dst frame = ethernet_address ni \<or> frame_dst frame = ETHERNET_BROADCAST"
    and "parse_arp c (frame_payload frame) = Some m"
    and "opcode m = OPCODE_REPLY"
    and "target_ip_address m = ip_address ni"
  shows "waiting_q (snd (recv_frame c curr_time frame ni)) =
           filter (\<lambda>p. dst_ip p \<noteq> sender_ip_address m) (waiting_q ni)
       \<and> ready2_sent_q (snd (recv_frame c curr_time frame ni)) =
           ready2_sent_q ni @
             map (\<lambda>p. (waiting_frame p)\<lparr>frame_dst := sender_ethernet_address m\<rparr>)
               (filter (\<lambda>p. dst_ip p = sender_ip_address m
                            \<and> frame_type (waiting_frame p) = TYPE_IPv4) (waiting_q ni))"
  using assms by (simp add: recv_frame_arp handle_arp_reply)

theorem arp_reply_flushes_datagrams_in_order_witness:
  "waiting_q (snd (recv_frame example_codec 0 reply_from_B (snd queued_state))) =
     [packet_no_MAC example_codec iface_A 0 2 ip_C]
   \<and> ready2_sent_q (snd (recv_frame example_codec 0 reply_from_B (snd queued_state))) =
     [ARP_request_frame example_codec iface_A ip_B, ARP_request_frame example_codec iface_A ip_C,
      make_ethernet_frame mac_B 0xAAAAAAAAAAAA TYPE_IPv4 (Dgram 1),
      make_ethernet_frame mac_B 0xAAAAAAAAAAAA TYPE_IPv4 (Dgram 3),
      make_ethernet_frame mac_B 0xAAAAAAAAAAAA TYPE_IPv4 (Dgram 4)]"
proof -
  let ?m = "make_arp_message mac_B ip_B 0xAAAAAAAAAAAA 0x0A000001 OPCODE_REPLY"
  have h1: "frame_type reply_from_B = TYPE_ARP"
    by (simp add: reply_from_B_def make_ethernet_frame_def)
  have h2: "frame_dst reply_from_B = ethernet_address (snd queued_state)
      \<or> frame_dst reply_from_B = ETHERNET_BROADCAST"
    by (simp add: queued_state_queues reply_from_B_def make_ethernet_frame_def)
  have h3: "parse_arp example_codec (frame_payload reply_from_B) = Some ?m"
    by (simp add: reply_from_B_def make_ethernet_frame_def example_codec_def)
  have h4: "opcode ?m = OPCODE_REPLY" by (simp add: make_arp_message_def)
  have h5: "target_ip_address ?m = ip_address (snd queued_state)"
    by (simp add: queued_state_queues make_arp_message_def)
  from arp_reply_flushes_datagrams_in_order [OF h1 h2 h3 h4 h5, of 0]
  show ?thesis
    by (simp add: queued_state_queues) (simp add: example_defs)
qed



text \<open>
  C10, as the code has it. Under the same conditions, every element of the waiting queue
  for the sender's address whose frame is not IPv4-typed (a retry marker) is gone from
  the waiting queue and no frame of its type was appended to the ready queue; the
  waiting queue then holds no element for that address at all. This stays so along every
  later sequence of calls in which each send towards that address finds it in the ARP
  table, and every tick in such a sequence appends to the ready queue only frames of
  elements it found waiting, none of them for that address.
\<close>

theorem arp_reply_discards_markers:
  assumes "frame_type frame = TYPE_ARP"
    and "frame_dst frame = ethernet_address ni \<or> frame_dst frame = ETHERNET_BROADCAST"
    and "parse_arp c (frame_payload frame) = Some m"
    and "opcode m = OPCODE_REPLY"
    and "target_ip_address m = ip_address ni"
  shows "(\<forall>p\<in>set (waiting_q ni).
            dst_ip p = sender_ip_address m \<and> frame_type (waiting_frame p) \<noteq> TYPE_IPv4 \<longrightarrow>
              p \<notin> set (waiting_q (snd (recv_frame c curr_time frame ni)))
              \<and> (\<forall>f\<in>set (appended ni (snd (recv_frame c curr_time frame ni))).
                    frame_type f \<noteq> frame_type (waiting_frame p)))
       \<and> (\<forall>p\<in>set (waiting_q (snd (recv_frame c curr_time frame ni))).
            dst_ip p \<noteq> sender_ip_address m)
       \<and> (\<forall>calls. sends_find c (sender_ip_address m) calls
                     (curr_time, snd (recv_frame c curr_time frame ni)) \<longrightarrow>
            (\<forall>p\<in>set (waiting_q (snd (run c calls
                        (curr_time, snd (recv_frame c curr_time frame ni))))).
               dst_ip p \<noteq> sender_ip_address m)
            \<and> (\<forall>ms. \<exists>es.
                  set es \<subseteq> set (waiting_q (snd (run c calls
                        (curr_time, snd (recv_frame c curr_time frame ni)))))
                  \<and> (\<forall>p\<in>set es. dst_ip p \<noteq> sender_ip_address m)
                  \<and> ready2_sent_q (snd (step c (Tick ms) (run c calls
                        (curr_time, snd (recv_frame c curr_time frame ni))))) =
                     ready2_sent_q (snd (run c calls
                        (curr_time, snd (recv_frame c curr_time frame ni))))
                     @ map waiting_frame es))"
proof -
  let ?x = "sender_ip_address m"
  let ?ni' = "snd (recv_frame c curr_time frame ni)"
  have r: "recv_frame c curr_time frame ni = (None, handle_arp c curr_time m ni)"
    using assms(1-3) by (rule recv_frame_arp)
  note h = handle_arp_reply [OF assms(4,5), of c curr_time]
  have w: "waiting_q ?ni' = filter (\<lambda>p. dst_ip p \<noteq> ?x) (waiting_q ni)"
    by (simp add: r h)
  have a: "appended ni ?ni' =
      map (\<lambda>p. (waiting_frame p)\<lparr>frame_dst := sender_ethernet_address m\<rparr>)
        (filter (\<lambda>p. dst_ip p = ?x \<and> frame_type (waiting_frame p) = TYPE_IPv4) (waiting_q ni))"
    by (simp add: r h appended_def)
  have none: "\<forall>p\<in>set (waiting_q ?ni'). dst_ip p \<noteq> ?x"
    by (simp add: w)
  have first: "\<forall>p\<in>set (waiting_q ni).
            dst_ip p = ?x \<and> frame_type (waiting_frame p) \<noteq> TYPE_IPv4 \<longrightarrow>
              p \<notin> set (waiting_q ?ni')
              \<and> (\<forall>f\<in>set (appended ni ?ni'). frame_type f \<noteq> frame_type (waiting_frame p))"
    unfolding a w by auto
  have later: "(\<forall>p\<in>set (waiting_q (snd (run c calls (curr_time, ?ni')))). dst_ip p \<noteq> ?x)
            \<and> (\<forall>ms. \<exists>es.
                  set es \<subseteq> set (waiting_q (snd (run c calls (curr_time, ?ni'))))
                  \<and> (\<forall>p\<in>set es. dst_ip p \<noteq> ?x)
                  \<and> ready2_sent_q (snd (step c (Tick ms) (run c calls (curr_time, ?ni')))) =
                     ready2_sent_q (snd (run c calls (curr_time, ?ni'))) @ map waiting_frame es)"
    if sf: "sends_find c ?x calls (curr_time, ?ni')" for calls
  proof -
    from run_no_items [OF sf] none
    have n: "\<forall>p\<in>set (waiting_q (snd (run c calls (curr_time, ?ni')))). dst_ip p \<noteq> ?x"
      by simp
    obtain t' ni'' where s: "run c calls (curr_time, ?ni') = (t', ni'')"
      by (cases "run c calls (curr_time, ?ni')")
    have "\<exists>es. set es \<subseteq> set (waiting_q ni'') \<and> (\<forall>p\<in>set es. dst_ip p \<noteq> ?x)
                  \<and> ready2_sent_q (snd (tick t' ms ni'')) =
                     ready2_sent_q ni'' @ map waiting_frame es" for ms
      using tick_appends_queued [of ni'' t' ms] n unfolding s by auto
    with n show ?thesis unfolding s by simp
  qed
  from first none later show ?thesis by blast
qed

theorem arp_reply_discards_markers_witness:
  "request_waiting_packet example_codec iface_A ip_B \<in> set (waiting_q (snd queued_state))
   \<and> request_waiting_packet example_codec iface_A ip_B
       \<notin> set (waiting_q (snd (recv_frame example_codec 0 reply_from_B (snd queued_state))))
   \<and> ARP_request_frame example_codec iface_A ip_B
       \<notin> set (appended (snd queued_state)
                (snd (recv_frame example_codec 0 reply_from_B (snd queued_state))))
   \<and> sends_find example_codec ip_B [Send 5 ip_B, Tick 5000]
        (0, snd (recv_frame example_codec 0 reply_from_B (snd queued_state)))
   \<and> request_waiting_packet example_codec iface_A ip_B
       \<notin> set (waiting_q (snd (run example_codec [Send 5 ip_B, Tick 5000]
                (0, snd (recv_frame example_codec 0 reply_from_B (snd queued_state))))))"
proof -
  let ?m = "make_arp_message mac_B ip_B 0xAAAAAAAAAAAA 0x0A000001 OPCODE_REPLY"
  let ?p = "request_waiting_packet example_codec iface_A ip_B"
  let ?ni' = "snd (recv_frame example_codec 0 reply_from_B (snd queued_state))"
  have h1: "frame_type reply_from_B = TYPE_ARP"
    by (simp add: reply_from_B_def make_ethernet_frame_def)
  have h2: "frame_dst reply_from_B = ethernet_address (snd queued_state)
      \<or> frame_dst reply_from_B = ETHERNET_BROADCAST"
    by (simp add: queued_state_queues reply_from_B_def make_ethernet_frame_def)
  have h3: "parse_arp example_codec (frame_payload reply_from_B) = Some ?m"
    by (simp add: reply_from_B_def make_ethernet_frame_def example_codec_def)
  have h4: "opcode ?m = OPCODE_REPLY" by (simp add: make_arp_message_def)
  have h5: "target_ip_address ?m = ip_address (snd queued_state)"
    by (simp add: queued_state_queues make_arp_message_def)
  have x: "sender_ip_address ?m = ip_B" by (simp add: make_arp_message_def)
  note t = arp_reply_discards_markers [OF h1 h2 h3 h4 h5, of 0, unfolded x]
  have i: "?p \<in> set (waiting_q (snd queued_state))" by (simp add: queued_state_queues)
  have ty: "frame_type (waiting_frame ?p) \<noteq> TYPE_IPv4" "frame_type (waiting_frame ?p) = TYPE_ARP"
    and d: "dst_ip ?p = ip_B"
    using marker_is_marker [of example_codec iface_A ip_B] types_distinct
    by (simp_all add: is_marker_def)
  from t i ty d have a: "?p \<notin> set (waiting_q ?ni')
      \<and> (\<forall>f\<in>set (appended (snd queued_state) ?ni'). frame_type f \<noteq> frame_type (waiting_frame ?p))"
    by blast
  have "frame_type (ARP_request_frame example_codec iface_A ip_B) = frame_type (waiting_frame ?p)"
    by (simp add: marker_is_marker)
  with a have b: "ARP_request_frame example_codec iface_A ip_B \<notin> set (appended (snd queued_state) ?ni')"
    by blast
  have sf: "sends_find example_codec ip_B [Send 5 ip_B, Tick 5000] (0, ?ni')"
    by (simp add: reply_state_eq)
  from t sf have "\<forall>p\<in>set (waiting_q (snd (run example_codec [Send 5 ip_B, Tick 5000] (0, ?ni')))).
      dst_ip p \<noteq> ip_B" by blast
  with d have c: "?p \<notin> set (waiting_q (snd (run example_codec [Send 5 ip_B, Tick 5000] (0, ?ni'))))"
    by blast
  from i a b sf c show ?thesis by blast
qed

text \<open>
  C10 as written fails in its last part: an ARP request for a resolved address can
  still leave the waiting queue later. After the reply from \<open>10.0.0.2\<close> its entry
  expires (a tick of 30001 ms); two sends to it follow, the second queueing a retry
  marker; then the address is learned again from an ARP request it broadcasts, which
  flushes nothing. The tick 5000 ms later moves the marker's ARP request for
  \<open>10.0.0.2\<close> to the ready queue while \<open>10.0.0.2\<close> is in the ARP table, before and
  after that tick.
\<close>

theorem marker_request_sent_for_resolved_address:
  "resolved_state = step example_codec (Recv reply_from_B) marker_state
   \<and> ARP_table (snd resolved_state) ip_B = Some \<lparr>MAC_addr = mac_B, caching_time = 0\<rparr>
   \<and> waiting_q (snd resolved_state) = []
   \<and> relearned_state =
       run example_codec [Tick 30001, Send 5 ip_B, Send 6 ip_B, Recv request_from_B] resolved_state
   \<and> ARP_table (snd relearned_state) ip_B = Some \<lparr>MAC_addr = mac_B, caching_time = 30001\<rparr>
   \<and> request_waiting_packet example_codec iface_A ip_B \<in> set (waiting_q (snd relearned_state))
   \<and> appended (snd relearned_state)
        (snd (tick (fst relearned_state) 5000 (snd relearned_state))) =
       [ARP_request_frame example_codec iface_A ip_B]
   \<and> ARP_table (snd (tick (fst relearned_state) 5000 (snd relearned_state))) ip_B =
       Some \<lparr>MAC_addr = mac_B, caching_time = 30001\<rparr>"
proof -
  have i: "request_waiting_packet example_codec iface_A ip_B \<in> set (waiting_q (snd relearned_state))"
    by (simp add: relearned_state_eq)
  have d: "due 35001 h (request_waiting_packet example_codec iface_A ip_B)"
    if "history_read h ip_B = 30001" for h
    using that by (simp add: due_iff marker_is_marker MAX_WAITING_TIME_def)
  have hr: "history_read (request_history (snd relearned_state)) ip_B = 30001"
    by (simp add: history_read_def relearned_state_eq)
  have nd: "\<not> due 35001 h (packet_no_MAC example_codec iface_A 30001 k ip_B)" for h k
    by (simp add: due_iff)
  have a: "appended (snd relearned_state)
        (snd (tick (fst relearned_state) 5000 (snd relearned_state))) =
       [ARP_request_frame example_codec iface_A ip_B]"
    using d nd hr
    by (simp add: tick_appended relearned_state_eq(4,7) marker_is_marker packet_no_MAC_def)
  have t: "ARP_table (snd (tick (fst relearned_state) 5000 (snd relearned_state))) ip_B =
       Some \<lparr>MAC_addr = mac_B, caching_time = 30001\<rparr>"
    by (simp add: tick_table expire_entries_def relearned_state_eq MAX_CACHE_TIME_def)
  from i a t relearned_state_eq(2,3,5) show ?thesis
    by (simp add: resolved_state_def relearned_state_def)
qed


subsection \<open>Retry markers and the tick\<close>

text \<open>
  C9, as the code has it. The marker \<open>send_datagram\<close> queues while the request for its
  address is younger than \<open>MAX_WAITING_TIME\<close> is an ARP-typed broadcast frame with
  timestamp \<open>SIZE_MAX\<close>, and \<open>curr_time - SIZE_MAX\<close> is \<open>curr_time + 1\<close> in 64-bit
  arithmetic. On a tick at whose new clock value the request is still younger than
  \<open>MAX_WAITING_TIME\<close>, the markers for the address are all kept when
  \<open>curr_time + 1 < 5000\<close> and all discarded otherwise. So they are discarded whenever
  the new clock value is at least 4999 and is not \<open>SIZE_MAX\<close> itself.
\<close>

theorem retry_marker_retention:
  "time (request_waiting_packet c ni x) = SIZE_MAX
   \<and> is_marker (request_waiting_packet c ni x)
   \<and> dst_ip (request_waiting_packet c ni x) = x
   \<and> (ARP_table ni x = None \<and> (\<exists>v. request_history ni x = Some v \<and> t - v < MAX_WAITING_TIME) \<longrightarrow>
        waiting_q (send_datagram c t d x ni) =
          waiting_q ni @ [request_waiting_packet c ni x, packet_no_MAC c ni t d x])
   \<and> (t + ms) - SIZE_MAX = (t + ms) + 1
   \<and> ((\<exists>v. request_history ni x = Some v \<and> (t + ms) - v < MAX_WAITING_TIME) \<longrightarrow>
        filter (\<lambda>p. dst_ip p = x \<and> is_marker p \<and> time p = SIZE_MAX)
            (waiting_q (snd (tick t ms ni))) =
          (if (t + ms) + 1 < MAX_WAITING_TIME
           then filter (\<lambda>p. dst_ip p = x \<and> is_marker p \<and> time p = SIZE_MAX) (waiting_q ni)
           else [])
        \<and> (4999 \<le> t + ms \<and> t + ms \<noteq> SIZE_MAX \<longrightarrow>
             (\<forall>p\<in>set (waiting_q (snd (tick t ms ni))).
                \<not> (dst_ip p = x \<and> is_marker p \<and> time p = SIZE_MAX))))"
proof -
  have s: "ARP_table ni x = None \<and> (\<exists>v. request_history ni x = Some v \<and> t - v < MAX_WAITING_TIME) \<longrightarrow>
        waiting_q (send_datagram c t d x ni) =
          waiting_q ni @ [request_waiting_packet c ni x, packet_no_MAC c ni t d x]"
    by (auto simp: send_datagram_young)
  have k: "filter (\<lambda>p. dst_ip p = x \<and> is_marker p \<and> time p = SIZE_MAX)
            (waiting_q (snd (tick t ms ni))) =
          (if (t + ms) + 1 < MAX_WAITING_TIME
           then filter (\<lambda>p. dst_ip p = x \<and> is_marker p \<and> time p = SIZE_MAX) (waiting_q ni)
           else [])
        \<and> (4999 \<le> t + ms \<and> t + ms \<noteq> SIZE_MAX \<longrightarrow>
             (\<forall>p\<in>set (waiting_q (snd (tick t ms ni))).
                \<not> (dst_ip p = x \<and> is_marker p \<and> time p = SIZE_MAX)))"
    if "\<exists>v. request_history ni x = Some v \<and> (t + ms) - v < MAX_WAITING_TIME"
  proof -
    from that obtain v where v: "request_history ni x = Some v" "(t + ms) - v < MAX_WAITING_TIME"
      by blast
    note f = tick_keeps_markers [OF v]
    have "\<forall>p\<in>set (waiting_q (snd (tick t ms ni))).
                \<not> (dst_ip p = x \<and> is_marker p \<and> time p = SIZE_MAX)"
      if "4999 \<le> t + ms \<and> t + ms \<noteq> SIZE_MAX"
    proof -
      from that clock_succ_large have "\<not> (t + ms) + 1 < MAX_WAITING_TIME" by blast
      with f have "filter (\<lambda>p. dst_ip p = x \<and> is_marker p \<and> time p = SIZE_MAX)
            (waiting_q (snd (tick t ms ni))) = []" by simp
      then show ?thesis by (simp add: filter_empty_conv)
    qed
    with f show ?thesis by blast
  qed
  from s k marker_is_marker(1-3) [of c ni x] size_max_diff [of "t + ms"] show ?thesis
    by blast
qed



text \<open>
  C9 as written fails at the one clock value \<open>SIZE_MAX\<close>: there \<open>curr_time + 1\<close>
  wraps to 0, and a marker whose request is 10 ms old is kept although the clock is far
  beyond 4999.
\<close>

theorem retry_marker_kept_at_SIZE_MAX:
  "fst (tick (fst wrap_state) 10 (snd wrap_state)) = SIZE_MAX
   \<and> (4999 :: size_t) \<le> SIZE_MAX
   \<and> request_history (snd wrap_state) ip_B = Some (SIZE_MAX - 10)
   \<and> SIZE_MAX - (SIZE_MAX - 10) < MAX_WAITING_TIME
   \<and> request_waiting_packet example_codec iface_A ip_B \<in> set (waiting_q (snd wrap_state))
   \<and> request_waiting_packet example_codec iface_A ip_B
       \<in> set (waiting_q (snd (tick (fst wrap_state) 10 (snd wrap_state))))"
proof -
  have a: "fst (tick (fst wrap_state) 10 (snd wrap_state)) = SIZE_MAX"
    by (simp add: tick_views wrap_state_eq)
  have b: "(4999 :: size_t) \<le> SIZE_MAX" "SIZE_MAX - (SIZE_MAX - 10) < MAX_WAITING_TIME"
    by (simp_all add: SIZE_MAX_def MAX_WAITING_TIME_def)
  have c: "request_waiting_packet example_codec iface_A ip_B \<in> set (waiting_q (snd wrap_state))"
    by (simp add: wrap_state_eq)
  have d: "request_waiting_packet example_codec iface_A ip_B
       \<in> set (waiting_q (snd (tick (fst wrap_state) 10 (snd wrap_state))))"
    by (simp add: wrap_state_eq(1,2) tick_views)
       (simp add: wrap_state_eq(3) [unfolded ip_B_def SIZE_MAX_def] example_defs due_def
          retained_def history_read_def history_touch_def)
  from a b c d wrap_state_eq(3) show ?thesis by blast
qed

theorem retry_marker_retention_witness:
  "request_history (snd marker_state) ip_B = Some 0
   \<and> (0 + 4999) - 0 < MAX_WAITING_TIME
   \<and> request_waiting_packet example_codec iface_A ip_B \<in> set (waiting_q (snd marker_state))
   \<and> request_waiting_packet example_codec iface_A ip_B
       \<notin> set (waiting_q (snd (tick 0 4999 (snd marker_state))))
   \<and> filter (\<lambda>p. dst_ip p = ip_B \<and> is_marker p \<and> time p = SIZE_MAX)
        (waiting_q (snd (tick 0 1000 (snd marker_state)))) =
       [request_waiting_packet example_codec iface_A ip_B]"
proof -
  let ?m = "request_waiting_packet example_codec iface_A ip_B"
  have m: "dst_ip ?m = ip_B \<and> is_marker ?m \<and> time ?m = SIZE_MAX"
    by (simp add: marker_is_marker)
  have y1: "\<exists>v. request_history (snd marker_state) ip_B = Some v \<and> (0 + 4999) - v < MAX_WAITING_TIME"
    by (simp add: marker_state_eq MAX_WAITING_TIME_def)
  have y2: "\<exists>v. request_history (snd marker_state) ip_B = Some v \<and> (0 + 1000) - v < MAX_WAITING_TIME"
    by (simp add: marker_state_eq MAX_WAITING_TIME_def)
  have c1: "(4999 :: size_t) \<le> 0 + 4999 \<and> (0 + 4999 :: size_t) \<noteq> SIZE_MAX"
    by (simp add: SIZE_MAX_def)
  have c2: "(0 + 1000 :: size_t) + 1 < MAX_WAITING_TIME" by (simp add: MAX_WAITING_TIME_def)
  from retry_marker_retention [of example_codec "snd marker_state" ip_B 0 0 4999] y1 c1
  have "\<forall>p\<in>set (waiting_q (snd (tick 0 4999 (snd marker_state)))).
                \<not> (dst_ip p = ip_B \<and> is_marker p \<and> time p = SIZE_MAX)" by blast
  with m have r1: "?m \<notin> set (waiting_q (snd (tick 0 4999 (snd marker_state))))" by blast
  from retry_marker_retention [of example_codec "snd marker_state" ip_B 0 0 1000] y2
  have "filter (\<lambda>p. dst_ip p = ip_B \<and> is_marker p \<and> time p = SIZE_MAX)
            (waiting_q (snd (tick 0 1000 (snd marker_state)))) =
          (if (0 + 1000) + 1 < MAX_WAITING_TIME
           then filter (\<lambda>p. dst_ip p = ip_B \<and> is_marker p \<and> time p = SIZE_MAX)
                  (waiting_q (snd marker_state))
           else [])" by blast
  with c2 have "filter (\<lambda>p. dst_ip p = ip_B \<and> is_marker p \<and> time p = SIZE_MAX)
        (waiting_q (snd (tick 0 1000 (snd marker_state)))) =
      filter (\<lambda>p. dst_ip p = ip_B \<and> is_marker p \<and> time p = SIZE_MAX) (waiting_q (snd marker_state))"
    by simp
  also have "\<dots> = [?m]"
    by (simp add: marker_state_eq marker_is_marker)
  finally have r2: "filter (\<lambda>p. dst_ip p = ip_B \<and> is_marker p \<and> time p = SIZE_MAX)
        (waiting_q (snd (tick 0 1000 (snd marker_state)))) = [?m]" .
  have i: "?m \<in> set (waiting_q (snd marker_state))" by (simp add: marker_state_eq)
  have "(0 + 4999) - 0 < MAX_WAITING_TIME" by (simp add: MAX_WAITING_TIME_def)
  with marker_state_eq(4) i r1 r2 show ?thesis by blast
qed


subsection \<open>What the tick retransmits\<close>

text \<open>
  C4, as the code has it. The tick retransmits from retry markers only. When the waiting
  queue holds a marker for the address \<open>x\<close> and the request record of \<open>x\<close> is at
  least \<open>MAX_WAITING_TIME\<close> old at the new clock value, the tick sets the record to
  the new clock value and appends the frame of such a marker to the ready queue: the
  broadcast ARP request for \<open>x\<close>, when the markers are those \<open>send_datagram\<close> builds.
  When the waiting queue holds no marker for \<open>x\<close> (datagrams only, say), the tick
  leaves the record alone and appends nothing for \<open>x\<close>, however old the record is.
  In both cases every queued datagram stays queued.
\<close>

theorem tick_retransmits_only_for_marker:
  "((\<exists>p\<in>set (waiting_q ni). dst_ip p = x \<and> is_marker p)
      \<and> (\<exists>v. request_history ni x = Some v \<and> MAX_WAITING_TIME \<le> (t + ms) - v) \<longrightarrow>
        fst (tick t ms ni) = t + ms
        \<and> request_history (snd (tick t ms ni)) x = Some (t + ms)
        \<and> (\<exists>p\<in>set (waiting_q ni). dst_ip p = x \<and> is_marker p
              \<and> waiting_frame p \<in> set (appended ni (snd (tick t ms ni))))
        \<and> ((\<forall>p\<in>set (waiting_q ni). dst_ip p = x \<and> is_marker p \<longrightarrow>
                waiting_frame p = ARP_request_frame c ni x) \<longrightarrow>
             ARP_request_frame c ni x \<in> set (appended ni (snd (tick t ms ni)))))
   \<and> ((\<forall>p\<in>set (waiting_q ni). dst_ip p = x \<longrightarrow> \<not> is_marker p) \<longrightarrow>
        (\<forall>v. request_history ni x = Some v \<longrightarrow> request_history (snd (tick t ms ni)) x = Some v)
        \<and> (\<exists>es. set es \<subseteq> set (waiting_q ni) \<and> (\<forall>p\<in>set es. dst_ip p \<noteq> x) \<and>
              ready2_sent_q (snd (tick t ms ni)) = ready2_sent_q ni @ map waiting_frame es))
   \<and> filter (\<lambda>p. frame_type (waiting_frame p) = TYPE_IPv4) (waiting_q (snd (tick t ms ni))) =
       filter (\<lambda>p. frame_type (waiting_frame p) = TYPE_IPv4) (waiting_q ni)"
proof -
  have a: "fst (tick t ms ni) = t + ms
        \<and> request_history (snd (tick t ms ni)) x = Some (t + ms)
        \<and> (\<exists>p\<in>set (waiting_q ni). dst_ip p = x \<and> is_marker p
              \<and> waiting_frame p \<in> set (appended ni (snd (tick t ms ni))))
        \<and> ((\<forall>p\<in>set (waiting_q ni). dst_ip p = x \<and> is_marker p \<longrightarrow>
                waiting_frame p = ARP_request_frame c ni x) \<longrightarrow>
             ARP_request_frame c ni x \<in> set (appended ni (snd (tick t ms ni))))"
    if "(\<exists>p\<in>set (waiting_q ni). dst_ip p = x \<and> is_marker p)
      \<and> (\<exists>v. request_history ni x = Some v \<and> MAX_WAITING_TIME \<le> (t + ms) - v)"
  proof -
    from that obtain v where m: "\<exists>p\<in>set (waiting_q ni). dst_ip p = x \<and> is_marker p"
      and v: "request_history ni x = Some v" "MAX_WAITING_TIME \<le> (t + ms) - v" by blast
    note f = tick_fires_frame [OF m v]
    have "fst (tick t ms ni) = t + ms" by (simp add: tick_views)
    moreover from f(2) have "(\<forall>p\<in>set (waiting_q ni). dst_ip p = x \<and> is_marker p \<longrightarrow>
                waiting_frame p = ARP_request_frame c ni x) \<longrightarrow>
             ARP_request_frame c ni x \<in> set (appended ni (snd (tick t ms ni)))"
      by metis
    ultimately show ?thesis using f by blast
  qed
  have b: "(\<forall>v. request_history ni x = Some v \<longrightarrow> request_history (snd (tick t ms ni)) x = Some v)
        \<and> (\<exists>es. set es \<subseteq> set (waiting_q ni) \<and> (\<forall>p\<in>set es. dst_ip p \<noteq> x) \<and>
              ready2_sent_q (snd (tick t ms ni)) = ready2_sent_q ni @ map waiting_frame es)"
    if "\<forall>p\<in>set (waiting_q ni). dst_ip p = x \<longrightarrow> \<not> is_marker p"
    using tick_silent_without_marker [OF that] by blast
  from a b tick_keeps_datagrams [of t ms ni] show ?thesis by blast
qed


text \<open>
  C4 as written fails: with one datagram pending for \<open>10.0.0.2\<close> and its request
  6000 ms old, a tick appends no frame and leaves the record at 0.
\<close>

theorem tick_silent_with_datagram_pending:
  "packet_no_MAC example_codec iface_A 0 1 ip_B \<in> set (waiting_q (snd pending_state))
   \<and> request_history (snd pending_state) ip_B = Some 0
   \<and> MAX_WAITING_TIME < fst pending_state - 0
   \<and> appended (snd pending_state) (snd (tick (fst pending_state) 1 (snd pending_state))) = []
   \<and> request_history (snd (tick (fst pending_state) 1 (snd pending_state))) ip_B = Some 0
   \<and> waiting_q (snd (tick (fst pending_state) 1 (snd pending_state))) =
       [packet_no_MAC example_codec iface_A 0 1 ip_B]"
proof -
  have nm: "\<not> is_marker (packet_no_MAC example_codec iface_A 0 1 ip_B)"
    by (simp add: is_marker_def packet_no_MAC_def ether_frame_no_MAC_def make_ethernet_frame_def
        types_distinct)
  have r: "retained 6001 (packet_no_MAC example_codec iface_A 0 1 ip_B)"
    by (simp add: retained_def packet_no_MAC_def ether_frame_no_MAC_def make_ethernet_frame_def)
  have "MAX_WAITING_TIME < fst pending_state - 0"
    by (simp add: pending_state_eq MAX_WAITING_TIME_def)
  moreover have "appended (snd pending_state) (snd (tick (fst pending_state) 1 (snd pending_state))) = []"
    using nm by (simp add: tick_appended pending_state_eq due_iff)
  moreover have "request_history (snd (tick (fst pending_state) 1 (snd pending_state))) ip_B = Some 0"
    using nm by (simp add: tick_views pending_state_eq due_iff history_touch_def
        packet_no_MAC_def)
  moreover have "waiting_q (snd (tick (fst pending_state) 1 (snd pending_state))) =
       [packet_no_MAC example_codec iface_A 0 1 ip_B]"
    using nm r by (simp add: tick_views pending_state_eq due_iff)
  ultimately show ?thesis by (simp add: pending_state_eq)
qed

theorem tick_retransmits_only_for_marker_witness:
  "request_waiting_packet example_codec iface_A ip_B \<in> set (waiting_q (snd marker_state))
   \<and> request_history (snd marker_state) ip_B = Some 0
   \<and> MAX_WAITING_TIME \<le> (0 + 5000) - 0
   \<and> request_history (snd (tick 0 5000 (snd marker_state))) ip_B = Some 5000
   \<and> ARP_request_frame example_codec (snd marker_state) ip_B
       \<in> set (appended (snd marker_state) (snd (tick 0 5000 (snd marker_state))))
   \<and> filter (\<lambda>p. frame_type (waiting_frame p) = TYPE_IPv4)
        (waiting_q (snd (tick 0 5000 (snd marker_state)))) =
       [packet_no_MAC example_codec iface_A 0 1 ip_B, packet_no_MAC example_codec iface_A 0 2 ip_B]"
proof -
  let ?ni = "snd marker_state"
  let ?m = "request_waiting_packet example_codec iface_A ip_B"
  have i: "?m \<in> set (waiting_q ?ni)" by (simp add: marker_state_eq)
  have m: "\<exists>p\<in>set (waiting_q ?ni). dst_ip p = ip_B \<and> is_marker p"
    using i marker_is_marker [of example_codec iface_A ip_B] by blast
  have v: "\<exists>v. request_history ?ni ip_B = Some v \<and> MAX_WAITING_TIME \<le> (0 + 5000) - v"
    by (simp add: marker_state_eq MAX_WAITING_TIME_def)
  have ad: "ethernet_address ?ni = ethernet_address iface_A" "ip_address ?ni = ip_address iface_A"
    by (simp_all add: marker_state_def example_defs)
  have fr: "ARP_request_frame example_codec ?ni ip_B = ARP_request_frame example_codec iface_A ip_B"
    by (simp add: ARP_request_frame_def ad)
  have wf: "\<forall>p\<in>set (waiting_q ?ni). dst_ip p = ip_B \<and> is_marker p \<longrightarrow>
                waiting_frame p = ARP_request_frame example_codec ?ni ip_B"
    unfolding fr
    by (simp add: marker_state_eq marker_is_marker)
  note t = tick_retransmits_only_for_marker [of ?ni ip_B 0 5000 example_codec]
  from t m v wf have a: "request_history (snd (tick 0 5000 ?ni)) ip_B = Some (0 + 5000)"
    and b: "ARP_request_frame example_codec ?ni ip_B \<in> set (appended ?ni (snd (tick 0 5000 ?ni)))"
    by blast+
  from t have "filter (\<lambda>p. frame_type (waiting_frame p) = TYPE_IPv4) (waiting_q (snd (tick 0 5000 ?ni))) =
       filter (\<lambda>p. frame_type (waiting_frame p) = TYPE_IPv4) (waiting_q ?ni)" by blast
  also have "\<dots> = [packet_no_MAC example_codec iface_A 0 1 ip_B, packet_no_MAC example_codec iface_A 0 2 ip_B]"
    by (simp add: marker_state_eq)
       (simp add: packet_no_MAC_def request_waiting_packet_def ARP_request_frame_def
          ether_frame_no_MAC_def make_ethernet_frame_def types_distinct)
  finally have c: "filter (\<lambda>p. frame_type (waiting_frame p) = TYPE_IPv4)
        (waiting_q (snd (tick 0 5000 ?ni))) =
       [packet_no_MAC example_codec iface_A 0 1 ip_B, packet_no_MAC example_codec iface_A 0 2 ip_B]" .
  have "MAX_WAITING_TIME \<le> (0 + 5000) - 0" by (simp add: MAX_WAITING_TIME_def)
  with i marker_state_eq(4) a b c show ?thesis by simp
qed


subsection \<open>Expiry of the ARP table\<close>






subsection \<open>The clock is shared\<close>

text \<open>
  C8 fails on the code: \<open>curr_time\<close> is one variable for all interfaces. In a program
  with two interfaces, a tick of 5000 ms on the second one moves the clock the first
  one reads to 5000 although the first one's members are untouched. Interface A then
  sends twice to the unresolved \<open>10.0.0.2\<close>: with the other interface's tick in
  between, the second send finds the request 5000 ms old and emits a second ARP
  request; without it, the second send emits none.
\<close>

theorem tick_on_other_interface_changes_clock:
  "fst (call_on example_codec 1 (Tick 5000) two_interfaces) = 5000
   \<and> snd (call_on example_codec 1 (Tick 5000) two_interfaces) ! 0 = iface_A
   \<and> ready2_sent_q (snd (call_on example_codec 0 (Send 6 ip_B)
        (call_on example_codec 1 (Tick 5000)
          (call_on example_codec 0 (Send 5 ip_B) two_interfaces))) ! 0) =
       [ARP_request_frame example_codec iface_A ip_B, ARP_request_frame example_codec iface_A ip_B]
   \<and> ready2_sent_q (snd (call_on example_codec 0 (Send 6 ip_B)
          (call_on example_codec 0 (Send 5 ip_B) two_interfaces)) ! 0) =
       [ARP_request_frame example_codec iface_A ip_B]"
proof -
  let ?a1 = "send_datagram example_codec 0 5 ip_B iface_A"
  have w1: "call_on example_codec 0 (Send 5 ip_B) two_interfaces = (0, [?a1, iface_R])"
    by (simp add: call_on_def two_interfaces_def)
  have w2: "call_on example_codec 1 (Tick 5000) (0, [?a1, iface_R]) = (5000, [?a1, iface_R])"
    by (simp add: call_on_def iface_R_tick)
  have t0: "call_on example_codec 1 (Tick 5000) two_interfaces = (5000, [iface_A, iface_R])"
    by (simp add: call_on_def two_interfaces_def iface_R_tick)
  have a: "ARP_table ?a1 ip_B = None" "request_history ?a1 ip_B = Some 0"
    "ready2_sent_q ?a1 = [ARP_request_frame example_codec iface_A ip_B]"
    "ethernet_address ?a1 = ethernet_address iface_A" "ip_address ?a1 = ip_address iface_A"
    by (simp_all add: send_first_A) (simp_all add: iface_A_def new_interface_def)
  have fr: "ARP_request_frame example_codec ?a1 ip_B = ARP_request_frame example_codec iface_A ip_B"
    by (simp add: ARP_request_frame_def a)
  have old: "ready2_sent_q (send_datagram example_codec 5000 6 ip_B ?a1) =
      [ARP_request_frame example_codec iface_A ip_B, ARP_request_frame example_codec iface_A ip_B]"
    using a(1,2) by (subst send_datagram_old) (simp_all add: MAX_WAITING_TIME_def a(3) fr)
  have young: "ready2_sent_q (send_datagram example_codec 0 6 ip_B ?a1) =
      [ARP_request_frame example_codec iface_A ip_B]"
    using a(1,2) by (subst send_datagram_young [where v = 0]) (simp_all add: MAX_WAITING_TIME_def a(3))
  show ?thesis
    unfolding w1 w2 t0 by (simp add: call_on_def old young)
qed


subsection \<open>At most one ARP request per 5000 ms\<close>

text \<open>
  C3. Take any sequence of sends and ticks on one interface whose waiting queue is well
  formed (as it is in every state reached from a new interface), with a codec that
  serialises different ARP messages differently. List the times, measured as the sum of
  the ticks so far, at which the broadcast ARP request for an address \<open>x\<close> is appended
  to the ready queue: any two of them are at least 5000 ms apart, so no window shorter
  than that holds two. For a single send to an unresolved \<open>x\<close>: while the request
  record of \<open>x\<close> is younger than 5000 ms it appends no frame and leaves the records
  alone; when the record is 5000 ms old or older it appends exactly the one request
  frame for \<open>x\<close> and sets the record to the current clock value.
\<close>

theorem arp_requests_rate_limited:
  "markers_wellformed c (snd (run c before (t0, new_interface ea ip)))
   \<and> (inj (serialize_arp c) \<and> markers_wellformed c ni \<and> list_all send_or_tick calls \<longrightarrow>
        (\<forall>i j. i < j \<and> j < length (request_times c x 0 calls (t, ni)) \<longrightarrow>
           request_times c x 0 calls (t, ni) ! i + 5000 \<le> request_times c x 0 calls (t, ni) ! j))
   \<and> (ARP_table ni x = None \<and> (\<exists>v. request_history ni x = Some v \<and> t - v < MAX_WAITING_TIME) \<longrightarrow>
        appended ni (send_datagram c t d x ni) = []
        \<and> request_history (send_datagram c t d x ni) = request_history ni)
   \<and> (ARP_table ni x = None \<and> (\<exists>v. request_history ni x = Some v \<and> MAX_WAITING_TIME \<le> t - v) \<longrightarrow>
        appended ni (send_datagram c t d x ni) = [ARP_request_frame c ni x]
        \<and> request_history (send_datagram c t d x ni) x = Some t)"
proof -
  have w: "markers_wellformed c (snd (run c before (t0, new_interface ea ip)))"
    by (rule run_wellformed) (simp add: new_interface_wellformed)
  have a: "\<forall>i j. i < j \<and> j < length (request_times c x 0 calls (t, ni)) \<longrightarrow>
           request_times c x 0 calls (t, ni) ! i + 5000 \<le> request_times c x 0 calls (t, ni) ! j"
    if h: "inj (serialize_arp c) \<and> markers_wellformed c ni \<and> list_all send_or_tick calls"
  proof -
    have "record_follows None 0 (fst (t, ni)) (request_history (snd (t, ni))) x"
      by (simp add: record_follows_def)
    with h have "gaps_ok None (request_times c x 0 calls (t, ni))"
      by (intro run_gaps) simp_all
    then show ?thesis by (rule gaps_ok_pairs)
  qed
  have b: "appended ni (send_datagram c t d x ni) = []
        \<and> request_history (send_datagram c t d x ni) = request_history ni"
    if "ARP_table ni x = None \<and> (\<exists>v. request_history ni x = Some v \<and> t - v < MAX_WAITING_TIME)"
    using that by (auto simp: send_datagram_young appended_def)
  have c: "appended ni (send_datagram c t d x ni) = [ARP_request_frame c ni x]
        \<and> request_history (send_datagram c t d x ni) x = Some t"
    if "ARP_table ni x = None \<and> (\<exists>v. request_history ni x = Some v \<and> MAX_WAITING_TIME \<le> t - v)"
  proof -
    from that obtain v where u: "ARP_table ni x = None" and v: "request_history ni x = Some v"
      "\<not> t - v < MAX_WAITING_TIME" by auto
    from v have "request_history ni x = None \<or> (\<exists>v. request_history ni x = Some v \<and> \<not> t - v < MAX_WAITING_TIME)"
      by blast
    from send_datagram_old [OF u this, of c d] show ?thesis by (simp add: appended_def)
  qed
  from w a b c show ?thesis by blast
qed

theorem arp_requests_rate_limited_witness:
  "inj (serialize_arp example_codec)
   \<and> markers_wellformed example_codec iface_A
   \<and> list_all send_or_tick [Send 5 ip_B, Send 6 ip_B, Tick 5000 :: (nat, example_payload) call]
   \<and> request_times example_codec ip_B 0 [Send 5 ip_B, Send 6 ip_B, Tick 5000] (0, iface_A) = [0, 5000]
   \<and> request_times example_codec ip_B 0 [Send 5 ip_B, Send 6 ip_B, Tick 5000] (0, iface_A) ! 0 + 5000
       \<le> request_times example_codec ip_B 0 [Send 5 ip_B, Send 6 ip_B, Tick 5000] (0, iface_A) ! 1
   \<and> appended (snd marker_state) (send_datagram example_codec 0 7 ip_B (snd marker_state)) = []
   \<and> appended (snd pending_state) (send_datagram example_codec 6000 7 ip_B (snd pending_state)) =
       [ARP_request_frame example_codec (snd pending_state) ip_B]
   \<and> request_history (send_datagram example_codec 6000 7 ip_B (snd pending_state)) ip_B = Some 6000"
proof -
  let ?calls = "[Send 5 ip_B, Send 6 ip_B, Tick 5000] :: (nat, example_payload) call list"
  let ?ts = "request_times example_codec ip_B 0 ?calls (0, iface_A)"
  have wf: "markers_wellformed example_codec iface_A"
    unfolding iface_A_def by (rule new_interface_wellformed)
  have st: "list_all send_or_tick ?calls" by simp
  have len: "(0 :: nat) < 1 \<and> 1 < length ?ts" unfolding example_requests by simp
  from arp_requests_rate_limited [of example_codec "[]" 0 0 0 iface_A ?calls ip_B 0]
    example_codec_inj wf st len
  have a: "?ts ! 0 + 5000 \<le> ?ts ! 1" by blast
  have y: "ARP_table (snd marker_state) ip_B = None
      \<and> (\<exists>v. request_history (snd marker_state) ip_B = Some v \<and> 0 - v < MAX_WAITING_TIME)"
    by (simp add: marker_state_eq MAX_WAITING_TIME_def)
  from arp_requests_rate_limited [of example_codec "[]" 0 0 0 "snd marker_state" "[]" ip_B 0 7] y
  have b: "appended (snd marker_state) (send_datagram example_codec 0 7 ip_B (snd marker_state)) = []"
    by blast
  have pt: "ARP_table (snd pending_state) ip_B = None"
    by (simp add: pending_state_def example_defs tick_eval)
  have o: "ARP_table (snd pending_state) ip_B = None
      \<and> (\<exists>v. request_history (snd pending_state) ip_B = Some v \<and> MAX_WAITING_TIME \<le> 6000 - v)"
    by (simp add: pt pending_state_eq MAX_WAITING_TIME_def)
  from arp_requests_rate_limited [of example_codec "[]" 0 0 0 "snd pending_state" "[]" ip_B 6000 7] o
  have c: "appended (snd pending_state) (send_datagram example_codec 6000 7 ip_B (snd pending_state)) =
       [ARP_request_frame example_codec (snd pending_state) ip_B]
     \<and> request_history (send_datagram example_codec 6000 7 ip_B (snd pending_state)) ip_B = Some 6000"
    by blast
  from example_codec_inj wf st example_requests a b c show ?thesis by blast
qed


end
